theory Spec2Isabelle
  imports Complex_Main "HOL-Library.Word"
begin

section \<open>Fleet dispatcher: data model (pool.ts)\<close>

text \<open>
  The dispatcher \<^verbatim>\<open>ComfyPool\<close> keeps one state record per client, a selection mode, a
  job queue ordered by weight and a round-robin cursor. A \<^verbatim>\<open>JobItem\<close> carries its weight,
  the optional include and exclude filters and the function to run; the function is an
  abstract payload \<open>'f\<close> here. Weights are JavaScript numbers; they are modelled as
  reals, so the value NaN (which compares false with everything) is outside the model.
  An optional field is an \<open>option\<close>, \<open>None\<close> standing for \<^verbatim>\<open>undefined\<close>.
\<close>

record 'f JobItem =
  weight :: real
  includeClientIds :: "string list option"
  excludeClientIds :: "string list option"
  fn :: 'f

datatype EQueueMode = PICK_ZERO | PICK_LOWEST | PICK_ROUTINE

text \<open>
  One entry of \<^verbatim>\<open>clientStates\<close>. The field \<^verbatim>\<open>id\<close> is named \<open>cid\<close> (\<open>id\<close> is the
  identity function of HOL). \<^verbatim>\<open>queueRemaining\<close> is a count reported by the backend.
\<close>

record client_state =
  cid :: string
  queueRemaining :: nat
  locked :: bool
  online :: bool

text \<open>
  The pool. \<^verbatim>\<open>clients[i]\<close> and \<^verbatim>\<open>clientStates[i]\<close> are parallel arrays, so a client is
  named by its index. \<^verbatim>\<open>routineIdx\<close> is a JavaScript number that becomes NaN after a
  remainder by zero: \<open>None\<close> stands for NaN.
\<close>

record 'f pool =
  clientStates :: "client_state list"
  mode :: EQueueMode
  jobQueue :: "'f JobItem list"
  routineIdx :: "nat option"
  maxQueueSize :: nat

datatype pool_error = Job_queue_limit_reached

subsection \<open>The weighted queue\<close>

text \<open>
  \<^verbatim>\<open>Array.prototype.findIndex\<close>: the index of the first element that satisfies the
  predicate; \<open>None\<close> stands for the result \<^verbatim>\<open>-1\<close>.
\<close>

fun findIndex :: "('a \<Rightarrow> bool) \<Rightarrow> 'a list \<Rightarrow> nat option" where
  "findIndex P [] = None"
| "findIndex P (x # xs) =
     (if P x then Some 0 else (case findIndex P xs of None \<Rightarrow> None | Some i \<Rightarrow> Some (Suc i)))"

text \<open>
  \<^verbatim>\<open>pushJobByWeight\<close>: the new item goes before the first queued job whose weight is
  strictly greater (\<^verbatim>\<open>splice(idx, 0, item)\<close>), or to the end when there is none. The
  returned number is what the source returns: the index in the first case, the new length
  of the queue (the result of \<^verbatim>\<open>push\<close>) in the second.
\<close>

definition pushJobByWeight :: "'f JobItem \<Rightarrow> 'f JobItem list \<Rightarrow> 'f JobItem list \<times> nat" where
  "pushJobByWeight item q =
     (case findIndex (\<lambda>job. weight job > weight item) q of
        None \<Rightarrow> (q @ [item], Suc (length q))
      | Some idx \<Rightarrow> (take idx q @ item # drop idx q, idx))"

text \<open>
  The synchronous part of \<^verbatim>\<open>claim\<close>: the bound check, the default weight (the current
  queue length when no weight is given), the insertion, and the \<^verbatim>\<open>add_job\<close> event with
  the number returned by \<^verbatim>\<open>pushJobByWeight\<close>. On the error the pool is unchanged.
\<close>

record add_job = jobIdx :: nat  job_weight :: real

definition claim ::
  "'f \<Rightarrow> real option \<Rightarrow> string list option \<Rightarrow> string list option \<Rightarrow> 'f pool
     \<Rightarrow> pool_error + ('f pool \<times> add_job)" where
  "claim f w includeIds excludeIds p =
     (if length (jobQueue p) \<ge> maxQueueSize p then Inl Job_queue_limit_reached
      else
        let inputWeight = (case w of None \<Rightarrow> real (length (jobQueue p)) | Some x \<Rightarrow> x);
            (q, idx) = pushJobByWeight
               \<lparr>weight = inputWeight, includeClientIds = includeIds,
                excludeClientIds = excludeIds, fn = f\<rparr> (jobQueue p)
        in Inr (p\<lparr>jobQueue := q\<rparr>, \<lparr>jobIdx = idx, job_weight = inputWeight\<rparr>))"

text \<open>
  \<^verbatim>\<open>jobQueue.shift()\<close> as \<^verbatim>\<open>processJobQueue\<close> uses it: the head is removed and returned;
  on an empty queue nothing changes and the result is \<^verbatim>\<open>undefined\<close>.
\<close>

definition shift :: "'f pool \<Rightarrow> 'f pool \<times> 'f JobItem option" where
  "shift p = (case jobQueue p of [] \<Rightarrow> (p, None) | j # q \<Rightarrow> (p\<lparr>jobQueue := q\<rparr>, Some j))"

text \<open>
  A caller enqueues through \<^verbatim>\<open>claim\<close>; the dispatcher task dequeues through
  \<^verbatim>\<open>shift\<close>. A rejected \<^verbatim>\<open>claim\<close> leaves the pool as it was.
\<close>

datatype 'f queue_op = Enqueue 'f "real option" "string list option" "string list option" | Dequeue

fun queue_step :: "'f pool \<Rightarrow> 'f queue_op \<Rightarrow> 'f pool" where
  "queue_step p (Enqueue f w inc exc) =
     (case claim f w inc exc p of Inl e \<Rightarrow> p | Inr (p', ev) \<Rightarrow> p')"
| "queue_step p Dequeue = fst (shift p)"

definition queue_run :: "'f pool \<Rightarrow> 'f queue_op list \<Rightarrow> 'f pool" where
  "queue_run p ops = foldl queue_step p ops"

text \<open>The constructor: an empty queue, cursor 0, \<^verbatim>\<open>maxQueueSize\<close> 1000 unless a truthy option is given.\<close>

definition new_pool :: "EQueueMode \<Rightarrow> nat option \<Rightarrow> 'f pool" where
  "new_pool m size_opt =
     \<lparr>clientStates = [], mode = m, jobQueue = [], routineIdx = Some 0,
      maxQueueSize = (case size_opt of None \<Rightarrow> 1000 | Some n \<Rightarrow> if n = 0 then 1000 else n)\<rparr>"

subsection \<open>Client events\<close>

text \<open>
  The handlers that \<^verbatim>\<open>initializeClient\<close> registers on a client write to that client's
  state record: a status message sets \<^verbatim>\<open>online\<close> and the reported queue depth and, in
  every mode but \<^verbatim>\<open>PICK_ZERO\<close>, clears \<^verbatim>\<open>locked\<close>; \<^verbatim>\<open>disconnected\<close> and
  \<^verbatim>\<open>reconnected\<close> set \<^verbatim>\<open>online\<close> and clear \<^verbatim>\<open>locked\<close>; the four terminal execution
  events clear \<^verbatim>\<open>locked\<close>. The first argument is the client's index. \<^verbatim>\<open>changeMode\<close>
  is listed with them, as it may run between two selections as well.
\<close>

datatype pool_event =
    Status nat nat
  | Disconnected nat
  | Reconnected nat
  | Execution_success nat
  | Execution_interrupted nat
  | Execution_error nat
  | Queue_error nat
  | Change_mode EQueueMode

definition modify :: "nat \<Rightarrow> (client_state \<Rightarrow> client_state) \<Rightarrow> 'f pool \<Rightarrow> 'f pool" where
  "modify i f p = p\<lparr>clientStates := (clientStates p)[i := f (clientStates p ! i)]\<rparr>"

fun handle_event :: "'f pool \<Rightarrow> pool_event \<Rightarrow> 'f pool" where
  "handle_event p (Status i remaining) =
     modify i (\<lambda>states.
        let states = states\<lparr>online := True, queueRemaining := remaining\<rparr>
        in if mode p \<noteq> PICK_ZERO then states\<lparr>locked := False\<rparr> else states) p"
| "handle_event p (Disconnected i) = modify i (\<lambda>states. states\<lparr>online := False, locked := False\<rparr>) p"
| "handle_event p (Reconnected i) = modify i (\<lambda>states. states\<lparr>online := True, locked := False\<rparr>) p"
| "handle_event p (Execution_success i) = modify i (\<lambda>states. states\<lparr>locked := False\<rparr>) p"
| "handle_event p (Execution_interrupted i) = modify i (\<lambda>states. states\<lparr>locked := False\<rparr>) p"
| "handle_event p (Execution_error i) = modify i (\<lambda>states. states\<lparr>locked := False\<rparr>) p"
| "handle_event p (Queue_error i) = modify i (\<lambda>states. states\<lparr>locked := False\<rparr>) p"
| "handle_event p (Change_mode m) = p\<lparr>mode := m\<rparr>"

definition deliver :: "'f pool \<Rightarrow> pool_event list \<Rightarrow> 'f pool" where
  "deliver p evs = foldl handle_event p evs"

subsection \<open>Client selection (getAvailableClient)\<close>

text \<open>
  The filter of \<^verbatim>\<open>getAvailableClient\<close>: an offline client is never accepted; a non-empty
  \<^verbatim>\<open>includeIds\<close> decides alone (the exclude list is not read then); otherwise a non-empty
  \<^verbatim>\<open>excludeIds\<close> decides; otherwise every online client is accepted.
\<close>

definition accepts :: "string list option \<Rightarrow> string list option \<Rightarrow> client_state \<Rightarrow> bool" where
  "accepts includeIds excludeIds c =
     (if \<not> online c then False
      else (case includeIds of
              Some (i # ids) \<Rightarrow> cid c \<in> set (i # ids)
            | _ \<Rightarrow> (case excludeIds of
                       Some (e # ids) \<Rightarrow> cid c \<notin> set (e # ids)
                     | _ \<Rightarrow> True)))"

definition acceptedClients ::
  "client_state list \<Rightarrow> string list option \<Rightarrow> string list option \<Rightarrow> client_state list" where
  "acceptedClients cs includeIds excludeIds = filter (accepts includeIds excludeIds) cs"

definition MAX_SAFE_INTEGER :: nat where
  "MAX_SAFE_INTEGER = 9007199254740991"

text \<open>\<^verbatim>\<open>Math.min(...xs)\<close>; \<open>None\<close> stands for \<^verbatim>\<open>Infinity\<close>, its value on no arguments.\<close>

fun Math_min :: "nat list \<Rightarrow> nat option" where
  "Math_min [] = None"
| "Math_min (x # xs) = (case Math_min xs of None \<Rightarrow> Some x | Some m \<Rightarrow> Some (min x m))"

definition indexOf :: "'a list \<Rightarrow> 'a \<Rightarrow> nat option" where
  "indexOf xs x = findIndex (\<lambda>y. y = x) xs"

text \<open>
  The \<^verbatim>\<open>switch\<close> on the mode. \<^verbatim>\<open>PICK_ZERO\<close> takes the first accepted client that has
  an empty queue, is not locked and has a non-empty id. \<^verbatim>\<open>PICK_LOWEST\<close> takes the first
  accepted client of least queue depth. \<^verbatim>\<open>PICK_ROUTINE\<close> takes the client at the cursor
  modulo the number of accepted clients and advances the cursor; with no accepted client
  the remainder is NaN, the cursor becomes NaN and stays so.
\<close>

definition pickIndex :: "'f pool \<Rightarrow> client_state list \<Rightarrow> 'f pool \<times> nat option" where
  "pickIndex p acc =
     (case mode p of
        PICK_ZERO \<Rightarrow> (p, findIndex (\<lambda>c. queueRemaining c = 0 \<and> \<not> locked c \<and> cid c \<noteq> []) acc)
      | PICK_LOWEST \<Rightarrow>
          (let queueSizes = map (\<lambda>state. if online state then queueRemaining state else MAX_SAFE_INTEGER) acc
           in (p, case Math_min queueSizes of None \<Rightarrow> None | Some m \<Rightarrow> indexOf queueSizes m))
      | PICK_ROUTINE \<Rightarrow>
          (case routineIdx p of
             None \<Rightarrow> (p, None)
           | Some r \<Rightarrow>
               if length acc = 0 then (p\<lparr>routineIdx := None\<rparr>, None)
               else (p\<lparr>routineIdx := Some (Suc r mod length acc)\<rparr>, Some (r mod length acc))))"

text \<open>
  One pass of the loop body of \<^verbatim>\<open>getAvailableClient\<close>: filter, pick, and, when an
  accepted client was picked, find the first entry of \<^verbatim>\<open>clientStates\<close> with the same id,
  lock it and return its index. The picked state is an element of \<^verbatim>\<open>clientStates\<close>, so
  the search by id always finds an entry; the last branch is never taken.
\<close>

definition selectClient ::
  "'f pool \<Rightarrow> string list option \<Rightarrow> string list option \<Rightarrow> 'f pool \<times> nat option" where
  "selectClient p includeIds excludeIds =
     (let acc = acceptedClients (clientStates p) includeIds excludeIds;
          (p', index) = pickIndex p acc
      in case index of
           None \<Rightarrow> (p', None)
         | Some i \<Rightarrow>
             if i < length acc then
               (case findIndex (\<lambda>c. cid c = cid (acc ! i)) (clientStates p') of
                  Some trueIdx \<Rightarrow> (modify trueIdx (\<lambda>c. c\<lparr>locked := True\<rparr>) p', Some trueIdx)
                | None \<Rightarrow> (p', None))
             else (p', None))"

text \<open>
  The loop itself. It is called without a timeout everywhere in the source, so it ends
  only by returning a client. After a pass that selects nobody it sleeps, and the
  handlers of the events that arrive meanwhile run. The argument \<open>arrivals\<close> lists the
  events of each successive sleep; when the list is used up and nobody was selected the
  result is \<open>None\<close>: the call has not returned.
\<close>

fun getAvailableClient ::
  "pool_event list list \<Rightarrow> 'f pool \<Rightarrow> string list option \<Rightarrow> string list option
     \<Rightarrow> ('f pool \<times> nat) option" where
  "getAvailableClient [] p includeIds excludeIds =
     (case selectClient p includeIds excludeIds of
        (p', Some i) \<Rightarrow> Some (p', i)
      | (p', None) \<Rightarrow> None)"
| "getAvailableClient (evs # arrivals) p includeIds excludeIds =
     (case selectClient p includeIds excludeIds of
        (p', Some i) \<Rightarrow> Some (p', i)
      | (p', None) \<Rightarrow> getAvailableClient arrivals (deliver p' evs) includeIds excludeIds)"

text \<open>
  The state of the pool at the start of the pass that returns a client: the states before
  it are those of the passes that selected nobody, each followed by the events of the
  sleep after it. When no pass returns it is the state after the last sleep.
\<close>

fun pass_state ::
  "pool_event list list \<Rightarrow> 'f pool \<Rightarrow> string list option \<Rightarrow> string list option \<Rightarrow> 'f pool" where
  "pass_state [] p includeIds excludeIds = p"
| "pass_state (evs # arrivals) p includeIds excludeIds =
     (case selectClient p includeIds excludeIds of
        (p', Some i) \<Rightarrow> p
      | (p', None) \<Rightarrow> pass_state arrivals (deliver p' evs) includeIds excludeIds)"

subsection \<open>Running a job with failover (run)\<close>

text \<open>
  The options and the client filter of \<^verbatim>\<open>run\<close>. A missing object and an object without
  the field read the same (\<^verbatim>\<open>options?.retryDelay\<close>), so each optional field is an
  \<open>option\<close>. The two numbers are JavaScript numbers and are modelled as reals (NaN, which
  is falsy as well, and the infinities are outside the model).
\<close>

record run_options =
  enableFailover :: "bool option"
  maxRetries :: "real option"
  retryDelay :: "real option"

record client_filter =
  includeIds :: "string list option"
  excludeIds :: "string list option"

text \<open>\<^verbatim>\<open>x || d\<close> on an optional number: \<^verbatim>\<open>undefined\<close> and \<^verbatim>\<open>0\<close> are falsy.\<close>

definition or_default :: "real option \<Rightarrow> real \<Rightarrow> real" where
  "or_default x d = (case x of None \<Rightarrow> d | Some v \<Rightarrow> if v = 0 then d else v)"

text \<open>
  What \<^verbatim>\<open>run\<close> does that can be observed: the events it dispatches, the calls of the
  job (with the attempt number, the index of the client, the id registered for that client
  in the pool, and the exclude list as it was when that client was selected), and the
  timers it sets for a retry.
\<close>

datatype run_event =
    Executing nat
  | Invoke nat nat string "string list"
  | Executed nat
  | Run_execution_error nat bool nat real
  | Retry_timer real

datatype run_result = Resolved nat | Rejected | Pending

text \<open>
  The surroundings of one \<^verbatim>\<open>run\<close>: whether the job resolves or throws, by attempt number
  and client index; the client events that arrive while attempt \<open>k\<close> runs and during the
  retry delay after it; the events that arrive during the sleeps of
  \<^verbatim>\<open>getAvailableClient\<close> in attempt \<open>k\<close>; and the value of \<^verbatim>\<open>client.id\<close> of the client
  with a given index at the moment the job of attempt \<open>k\<close> has thrown on it. The last is
  a parameter of its own because the id of a client is not fixed: the pool copies it into
  the state record when the client is added, and the client replaces its own
  (\<^verbatim>\<open>this.clientId = msg.data.sid\<close>) whenever a message of its socket carries a \<^verbatim>\<open>sid\<close>.
\<close>

record world =
  job_ok :: "nat \<Rightarrow> nat \<Rightarrow> bool"
  during :: "nat \<Rightarrow> pool_event list"
  arriving :: "nat \<Rightarrow> pool_event list list"
  client_id :: "nat \<Rightarrow> nat \<Rightarrow> string"

text \<open>The constants of the closure of \<^verbatim>\<open>run\<close>, fixed before the first attempt.\<close>

record run_ctx =
  ctx_enableFailover :: bool
  ctx_retryDelay :: real
  ctx_maxRetries :: real
  ctx_onlineClients :: "client_state list"
  ctx_weight :: "real option"
  ctx_includeIds :: "string list option"

text \<open>
  \<^verbatim>\<open>tryExecute\<close>, for a pool that runs this job only: the attempt counter goes up;
  \<^verbatim>\<open>claim\<close> queues the job (a full queue rejects the promise) and \<^verbatim>\<open>processJobQueue\<close>
  takes it from the queue, waits for a client and calls \<^verbatim>\<open>fn\<close>. When the job throws,
  failover is enabled, the attempt number is below \<^verbatim>\<open>maxRetries\<close> and the exclude list is
  shorter than the list of clients that were online when \<^verbatim>\<open>run\<close> was called, the value of
  \<^verbatim>\<open>client.id\<close> is pushed on the exclude list and \<^verbatim>\<open>tryExecute\<close> runs again after the
  delay; otherwise the promise is rejected. The filter of the selection compares the
  exclude list with the ids of the state records. The result \<open>Pending\<close> says that
  \<^verbatim>\<open>getAvailableClient\<close> has not returned.
\<close>

function tryExecute ::
  "world \<Rightarrow> run_ctx \<Rightarrow> nat pool \<Rightarrow> string list \<Rightarrow> nat \<Rightarrow> run_event list
     \<Rightarrow> nat pool \<times> run_event list \<times> run_result" where
  "tryExecute W C p excludedIds attempt0 tr =
     (let attempt = attempt0 + 1 in
      case claim attempt (ctx_weight C) (ctx_includeIds C) (Some excludedIds) p of
        Inl e \<Rightarrow> (p, tr, Rejected)
      | Inr (p1, ev) \<Rightarrow>
          (case shift p1 of
             (p2, None) \<Rightarrow> (p2, tr, Pending)
           | (p2, Some job) \<Rightarrow>
               (case getAvailableClient (arriving W attempt) p2
                       (includeClientIds job) (excludeClientIds job) of
                  None \<Rightarrow> (p2, tr, Pending)
                | Some (p3, idx) \<Rightarrow>
                    let tr1 = tr @ [Executing idx,
                                    Invoke attempt idx (cid (clientStates p3 ! idx)) excludedIds];
                        p4 = deliver p3 (during W attempt)
                    in if job_ok W attempt idx then (p4, tr1 @ [Executed idx], Resolved idx)
                       else if ctx_enableFailover C \<and> real attempt < ctx_maxRetries C
                               \<and> length (ctx_onlineClients C) > length excludedIds
                       then tryExecute W C p4 (excludedIds @ [client_id W attempt idx]) attempt
                              (tr1 @ [Run_execution_error idx True attempt (ctx_maxRetries C),
                                      Retry_timer (ctx_retryDelay C)])
                       else (p4, tr1 @ [Run_execution_error idx False attempt (ctx_maxRetries C)],
                             Rejected))))"
  by pat_completeness auto
termination
  by (relation "measure (\<lambda>(W, C, p, excludedIds, attempt0, tr).
                  length (ctx_onlineClients C) - length excludedIds)") auto

text \<open>
  \<^verbatim>\<open>run\<close>, up to the first attempt: failover is on unless the option is \<^verbatim>\<open>false\<close>;
  the retry delay and the number of retries fall back to their defaults when the option
  is falsy; the clients that are online now are listed once.
\<close>

definition run_setup :: "nat pool \<Rightarrow> real option \<Rightarrow> client_filter \<Rightarrow> run_options \<Rightarrow> run_ctx" where
  "run_setup p w clientFilter options =
     (let onlineClients = filter online (clientStates p)
      in \<lparr>ctx_enableFailover = (enableFailover options \<noteq> Some False),
          ctx_retryDelay = or_default (retryDelay options) 1000,
          ctx_maxRetries = or_default (maxRetries options) (real (length onlineClients)),
          ctx_onlineClients = onlineClients,
          ctx_weight = w,
          ctx_includeIds = includeIds clientFilter\<rparr>)"

text \<open>The exclude list of the filter is copied (\<^verbatim>\<open>[]\<close> when there is none) and the first attempt starts.\<close>

definition run ::
  "world \<Rightarrow> nat pool \<Rightarrow> real option \<Rightarrow> client_filter \<Rightarrow> run_options
     \<Rightarrow> nat pool \<times> run_event list \<times> run_result" where
  "run W p w clientFilter options =
     (let excludedIds = (case excludeIds clientFilter of None \<Rightarrow> [] | Some ids \<Rightarrow> ids)
      in tryExecute W (run_setup p w clientFilter options) p excludedIds 0 [])"

text \<open>The calls of the job in a trace: attempt, client index, registered id, exclude list.\<close>

fun invocations :: "run_event list \<Rightarrow> (nat \<times> nat \<times> string \<times> string list) list" where
  "invocations [] = []"
| "invocations (Invoke a i c ex # tr) = (a, i, c, ex) # invocations tr"
| "invocations (e # tr) = invocations tr"

text \<open>
  The exclude lists of successive calls are accumulated: each call sees the list the
  previous call saw, extended by the value \<^verbatim>\<open>client.id\<close> had for the previous call's
  client when that call failed.
\<close>

fun accumulated ::
  "(nat \<Rightarrow> nat \<Rightarrow> string) \<Rightarrow> string list \<Rightarrow> (nat \<times> nat \<times> string \<times> string list) list \<Rightarrow> bool" where
  "accumulated live ex [] = True"
| "accumulated live ex ((a, i, c, ex') # rest) = (ex' = ex \<and> accumulated live (ex @ [live a i]) rest)"

text \<open>The clients of the calls, by index.\<close>

definition used_clients :: "(nat \<times> nat \<times> string \<times> string list) list \<Rightarrow> nat list" where
  "used_clients invs = map (\<lambda>(a, i, c, ex). i) invs"

text \<open>
  Every client still has the id that the pool registered for it: \<^verbatim>\<open>client.id\<close> is the
  \<^verbatim>\<open>id\<close> of its state record whenever an attempt fails.
\<close>

definition ids_registered :: "world \<Rightarrow> nat pool \<Rightarrow> bool" where
  "ids_registered W p \<longleftrightarrow>
     (\<forall>a. list_all (\<lambda>i. client_id W a i = cid (clientStates p ! i)) [0 ..< length (clientStates p)])"

text \<open>
  What holds of the calls a run of \<^verbatim>\<open>tryExecute\<close> adds to the trace, started with exclude
  list \<open>ex\<close> after \<open>a\<close> attempts on a pool whose registered ids are \<open>ids\<close>: their number
  is bounded by the clients not yet excluded and by the attempts left, their attempt
  numbers go up from \<open>a + 1\<close>, each names a client of the pool with its registered id,
  their exclude lists are accumulated, and, when no include list is given, the registered
  id of the client of a call is not in the exclude list of that call.
\<close>

definition trace_ok ::
  "world \<Rightarrow> run_ctx \<Rightarrow> string list \<Rightarrow> string list \<Rightarrow> nat \<Rightarrow> run_event list \<Rightarrow> bool" where
  "trace_ok W C ids ex a new \<longleftrightarrow>
     length (invocations new) \<le> Suc (length (ctx_onlineClients C) - length ex) \<and>
     int (length (invocations new)) \<le> max 1 (\<lceil>ctx_maxRetries C\<rceil> - int a) \<and>
     map fst (invocations new) = [Suc a ..< Suc a + length (invocations new)] \<and>
     list_all (\<lambda>(a', i, c, e). i < length ids \<and> c = ids ! i) (invocations new) \<and>
     accumulated (client_id W) ex (invocations new) \<and>
     ((ctx_includeIds C = None \<or> ctx_includeIds C = Some []) \<longrightarrow>
        list_all (\<lambda>(a', i, c, e). c \<notin> set e) (invocations new))"

section \<open>Backend client (client.ts)\<close>

subsection \<open>Binary frames\<close>

type_synonym byte = "8 word"

text \<open>
  A binary message arrives as a \<^verbatim>\<open>Buffer\<close>: a window of \<open>byteLength\<close> bytes, starting at
  \<open>byteOffset\<close>, on an \<^verbatim>\<open>ArrayBuffer\<close> (\<^verbatim>\<open>buffer.buffer\<close>) that may be larger, as it is
  when the buffer comes from the allocation pool. \<open>contents\<close> are the bytes of the message.
\<close>

record Buffer =
  arrayBuffer :: "byte list"
  byteOffset :: nat
  byteLength :: nat

definition contents :: "Buffer \<Rightarrow> byte list" where
  "contents buffer = take (byteLength buffer) (drop (byteOffset buffer) (arrayBuffer buffer))"

text \<open>
  \<^verbatim>\<open>DataView.getUint32(offset)\<close>: four bytes, big-endian; a read past the end throws a
  \<^verbatim>\<open>RangeError\<close> (\<open>None\<close>).
\<close>

definition getUint32 :: "byte list \<Rightarrow> nat \<Rightarrow> 32 word option" where
  "getUint32 buf off =
     (if off + 4 \<le> length buf
      then Some (word_of_nat (((unat (buf ! off) * 256 + unat (buf ! (off + 1))) * 256
                                + unat (buf ! (off + 2))) * 256 + unat (buf ! (off + 3))))
      else None)"

text \<open>The events a client dispatches, as far as they are needed here.\<close>

datatype client_event =
    Ev_log string string
  | Ev_b_preview string "byte list"
  | Ev_all string
  | Ev_terminal
  | Ev_message string
  | Ev_status
  | Ev_connected
  | Ev_reconnected
  | Ev_websocket_unavailable

datatype frame_error = RangeError | Unknown_binary_message "32 word"

text \<open>
  The binary branch of \<^verbatim>\<open>onmessage\<close>. The view is \<^verbatim>\<open>new DataView(buffer.buffer)\<close>: it
  covers the whole \<^verbatim>\<open>ArrayBuffer\<close> from its first byte, whatever the offset of the
  message in it. The event type is read at offset 0 of the view. For event type 1 (preview
  image) the image type is read, \<^bold>\<open>at offset 0 again\<close>, and selects the MIME type: 2
  gives \<^verbatim>\<open>image/png\<close>, 1 and everything else \<^verbatim>\<open>image/jpeg\<close>. The payload is
  \<^verbatim>\<open>buffer.slice(8)\<close>, the bytes of the message from its eighth on. Any other event type
  throws.
\<close>

definition decode_binary :: "Buffer \<Rightarrow> frame_error + client_event" where
  "decode_binary buffer =
     (let view = arrayBuffer buffer in
      case getUint32 view 0 of
        None \<Rightarrow> Inl RangeError
      | Some eventType \<Rightarrow>
          if eventType = 1 then
            (case getUint32 view 0 of
               None \<Rightarrow> Inl RangeError
             | Some imageType \<Rightarrow>
                 let imageMime = (if imageType = 1 then ''image/jpeg''
                                  else if imageType = 2 then ''image/png''
                                  else ''image/jpeg'')
                 in Inr (Ev_b_preview imageMime (drop 8 (contents buffer))))
          else Inl (Unknown_binary_message eventType))"

text \<open>
  The decoder as the specification words it, for comparison with the code: the event type
  is the first four-byte word of the message, the image type the second.
\<close>

definition spec_decode_binary :: "Buffer \<Rightarrow> frame_error + client_event" where
  "spec_decode_binary buffer =
     (case getUint32 (contents buffer) 0 of
        None \<Rightarrow> Inl RangeError
      | Some eventType \<Rightarrow>
          if eventType = 1 then
            (case getUint32 (contents buffer) 4 of
               None \<Rightarrow> Inl RangeError
             | Some imageType \<Rightarrow>
                 Inr (Ev_b_preview (if imageType = 2 then ''image/png'' else ''image/jpeg'')
                        (drop 8 (contents buffer))))
          else Inl (Unknown_binary_message eventType))"

subsection \<open>Reconnection backoff\<close>

definition MAX_ATTEMPTS :: nat where "MAX_ATTEMPTS = 10"
definition BASE_DELAY :: real where "BASE_DELAY = 1000"
definition MAX_DELAY :: real where "MAX_DELAY = 15000"

text \<open>
  The delay computed in \<^verbatim>\<open>tryReconnect\<close> after attempt number \<open>attempt\<close> (at least 1, as
  the counter is incremented first), with \<open>random\<close> the value of \<^verbatim>\<open>Math.random()\<close>.
  Times are in milliseconds and modelled as reals.
\<close>

definition retry_delay :: "nat \<Rightarrow> real \<Rightarrow> real" where
  "retry_delay attempt random =
     (let exponentialDelay = min (BASE_DELAY * 2 ^ (attempt - 1)) MAX_DELAY;
          jitter = exponentialDelay * 0.3 * (random - 0.5)
      in max 1000 (exponentialDelay + jitter))"

datatype reconnect_event = Attempt nat | Retry_in real | Reconnection_successful | Reconnection_failed

text \<open>
  \<^verbatim>\<open>tryReconnect\<close>: the attempt counter goes up and a socket is created. Below the cap a
  timer is set with the delay above; when it fires and the socket is neither open nor
  connecting, \<^verbatim>\<open>tryReconnect\<close> runs again. At the cap \<^verbatim>\<open>reconnection_failed\<close> is
  dispatched and no timer is set. \<open>random n\<close> is the random number drawn in attempt \<open>n\<close>
  and \<open>up n\<close> says whether the socket is open or connecting when the timer of attempt \<open>n\<close>
  fires.
\<close>

function tryReconnect :: "(nat \<Rightarrow> real) \<Rightarrow> (nat \<Rightarrow> bool) \<Rightarrow> nat \<Rightarrow> reconnect_event list" where
  "tryReconnect random up attempt0 =
     (let attempt = attempt0 + 1 in
      Attempt attempt #
        (if attempt < MAX_ATTEMPTS then
           Retry_in (retry_delay attempt (random attempt)) #
             (if \<not> up attempt then tryReconnect random up attempt else [Reconnection_successful])
         else [Reconnection_failed]))"
  by pat_completeness auto
termination
  by (relation "measure (\<lambda>(random, up, attempt0). MAX_ATTEMPTS - attempt0)") auto

definition reconnectWs :: "(nat \<Rightarrow> real) \<Rightarrow> (nat \<Rightarrow> bool) \<Rightarrow> reconnect_event list" where
  "reconnectWs random up = tryReconnect random up 0"




subsection \<open>Client state, destroy and activity\<close>

datatype ready_state = CONNECTING | OPEN | CLOSING | CLOSED

record socket_state =
  readyState :: ready_state
  handlers :: bool

text \<open>
  The fields of \<^verbatim>\<open>ComfyApi\<close> that the operations below read or write. \<^verbatim>\<open>_destroyed\<close> is
  \<open>destroyed\<close>; a timer field says whether the timer is set; \<open>listeners\<close> holds the event
  types registered through \<^verbatim>\<open>on\<close>. Two logs record what leaves the client: the events
  passed to \<^verbatim>\<open>dispatchEvent\<close> and the routes passed to \<^verbatim>\<open>fetch\<close>.
\<close>

record client =
  destroyed :: bool
  lastActivity :: nat
  wsTimer :: bool
  pollingTimer :: bool
  socket :: "socket_state option"
  clientId :: string
  listeners :: "string list"
  dispatched :: "client_event list"
  requests :: "string list"

definition dispatchEvent :: "client_event \<Rightarrow> client \<Rightarrow> client" where
  "dispatchEvent ev c = c\<lparr>dispatched := dispatched c @ [ev]\<rparr>"

definition log_event :: "string \<Rightarrow> string \<Rightarrow> client \<Rightarrow> client" where
  "log_event fnName message c = dispatchEvent (Ev_log fnName message) c"

definition removeAllListeners :: "client \<Rightarrow> client" where
  "removeAllListeners c = (log_event ''removeAllListeners'' ''Triggered'' c)\<lparr>listeners := []\<rparr>"

definition on :: "string \<Rightarrow> client \<Rightarrow> client" where
  "on type c = (log_event ''on'' ''Add listener'' c)\<lparr>listeners := listeners c @ [type]\<rparr>"

text \<open>
  \<^verbatim>\<open>destroy\<close>: a second call only logs. The first call sets the flag, clears both timers,
  detaches the handlers of the socket and closes it, drops the socket, removes the
  listeners, and logs. (It also destroys the two extension objects, which are not part of
  this model; closing the socket is taken not to throw.) It clears no timer set with
  \<^verbatim>\<open>setTimeout\<close> and does not wait for a poll that is under way.
\<close>

definition destroy :: "client \<Rightarrow> client" where
  "destroy c0 =
     (let c = log_event ''destroy'' ''Destroying client...'' c0 in
      if destroyed c then log_event ''destroy'' ''Client already destroyed'' c
      else
        let c = c\<lparr>destroyed := True\<rparr>;
            c = c\<lparr>wsTimer := False\<rparr>;
            c = c\<lparr>pollingTimer := False\<rparr>;
            c = c\<lparr>socket := None\<rparr>;
            c = removeAllListeners c
        in log_event ''destroy'' ''Client destroyed completely'' c)"

text \<open>
  \<^verbatim>\<open>fetchApi\<close>: the credential headers are set and \<^verbatim>\<open>fetch\<close> is called. There is no
  other test; every HTTP accessor of the client goes through it.
\<close>

definition fetchApi :: "string \<Rightarrow> client \<Rightarrow> client" where
  "fetchApi route c = c\<lparr>requests := requests c @ [route]\<rparr>"

definition resetLastActivity :: "nat \<Rightarrow> client \<Rightarrow> client" where
  "resetLastActivity now c = c\<lparr>lastActivity := now\<rparr>"

text \<open>
  A message of the socket: binary; text that parses to an object with its \<^verbatim>\<open>type\<close>, whether
  \<^verbatim>\<open>data\<close> is truthy and the \<^verbatim>\<open>sid\<close> in it; text that does not parse; anything else.
\<close>

record json_msg =
  msg_type :: string
  msg_data :: bool
  msg_sid :: "string option"

datatype frame = Binary Buffer | Text json_msg | Unparsable_text | Other_data

text \<open>
  \<^verbatim>\<open>onmessage\<close>: the activity time is refreshed first, for every message. A binary message
  is decoded; a text message is dispatched as \<^verbatim>\<open>all\<close> and under its own type
  (\<^verbatim>\<open>logs\<close> as \<^verbatim>\<open>terminal\<close>), and a truthy \<^verbatim>\<open>sid\<close> replaces the client id. Whatever
  throws is caught and logged.
\<close>

definition onmessage :: "nat \<Rightarrow> frame \<Rightarrow> client \<Rightarrow> client" where
  "onmessage now fr c0 =
     (let c = resetLastActivity now c0 in
      case fr of
        Binary buffer \<Rightarrow>
          (case decode_binary buffer of
             Inr ev \<Rightarrow> dispatchEvent ev c
           | Inl err \<Rightarrow> log_event ''socket'' ''Unhandled message'' c)
      | Text msg \<Rightarrow>
          if \<not> msg_data msg \<or> msg_type msg = [] then c
          else
            let c = dispatchEvent (Ev_all (msg_type msg)) c;
                c = (if msg_type msg = ''logs'' then dispatchEvent Ev_terminal c
                     else dispatchEvent (Ev_message (msg_type msg)) c)
            in (case msg_sid msg of
                  None \<Rightarrow> c
                | Some sid \<Rightarrow> if sid = [] then c else c\<lparr>clientId := sid\<rparr>)
      | Unparsable_text \<Rightarrow> log_event ''socket'' ''Unhandled message'' c
      | Other_data \<Rightarrow> log_event ''socket'' ''Unhandled message'' c)"

text \<open>\<^verbatim>\<open>onopen\<close> of a socket made by \<^verbatim>\<open>createSocket(isReconnect)\<close>.\<close>

definition onopen :: "nat \<Rightarrow> bool \<Rightarrow> client \<Rightarrow> client" where
  "onopen now isReconnect c0 =
     (let c = resetLastActivity now c0;
          c = c\<lparr>socket := map_option (\<lambda>s. s\<lparr>readyState := OPEN\<rparr>) (socket c)\<rparr>;
          c = log_event ''socket'' ''Socket opened'' c
      in if isReconnect then dispatchEvent Ev_reconnected c else dispatchEvent Ev_connected c)"

text \<open>
  \<^verbatim>\<open>createSocket\<close>: nothing but a log when a socket exists. Otherwise the socket is
  created; \<open>created\<close> says whether the constructor returned. On success the handlers are
  attached and, unless this is a reconnect, the watchdog timer is set. On failure
  \<^verbatim>\<open>websocket_unavailable\<close> is dispatched and the polling timer is set.
\<close>

definition createSocket :: "bool \<Rightarrow> bool \<Rightarrow> client \<Rightarrow> client" where
  "createSocket isReconnect created c =
     (if socket c \<noteq> None then log_event ''socket'' ''Socket already exists, skipping creation.'' c
      else if created then
        let c = c\<lparr>socket := Some \<lparr>readyState = CONNECTING, handlers = True\<rparr>\<rparr>
        in if \<not> isReconnect then c\<lparr>wsTimer := True\<rparr> else c
      else
        let c = log_event ''socket'' ''WebSocket creation failed, falling back to polling'' c;
            c = dispatchEvent Ev_websocket_unavailable c;
            c = log_event ''socket'' ''Setting up polling fallback mechanism'' c;
            c = c\<lparr>pollingTimer := True\<rparr>
        in log_event ''socket'' ''Polling started with interval of 2000ms'' c)"

text \<open>
  \<^verbatim>\<open>pollFn\<close> of the polling fallback, in its two halves: the request, and what runs when
  \<^verbatim>\<open>pollStatus\<close> has settled. On success a \<^verbatim>\<open>status\<close> event is dispatched, the activity
  time is refreshed, and the socket is created again when it is missing or not open;
  when it is open the polling timer is cleared. On failure the error is logged.
\<close>

definition pollFn_request :: "client \<Rightarrow> client" where
  "pollFn_request c = fetchApi ''/prompt'' c"

definition pollFn_settled :: "nat \<Rightarrow> bool \<Rightarrow> bool \<Rightarrow> client \<Rightarrow> client" where
  "pollFn_settled now ok created c0 =
     (if ok then
        let c = dispatchEvent Ev_status c0;
            c = resetLastActivity now c
        in (case socket c of
              Some s \<Rightarrow>
                if readyState s \<noteq> OPEN
                then createSocket True created
                       (log_event ''socket'' ''Attempting to restore WebSocket connection'' c)
                else (log_event ''socket'' ''WebSocket connection restored, stopping polling'' c)
                       \<lparr>pollingTimer := False\<rparr>
            | None \<Rightarrow>
                createSocket True created
                  (log_event ''socket'' ''Attempting to restore WebSocket connection'' c))
      else log_event ''socket'' ''Polling error'' (log_event ''pollStatus'' ''Failed'' c0))"

text \<open>
  What can happen to a client, one step at a time: a call of \<^verbatim>\<open>destroy\<close>, \<^verbatim>\<open>on\<close> or of
  an HTTP accessor (which calls \<^verbatim>\<open>fetchApi\<close>); a response to such a call arriving at time
  \<open>now\<close> with a status (no code of the client runs then that writes its state); a
  message or the open event of the socket at time \<open>now\<close>, delivered while the socket and
  its handlers exist; a tick of the polling timer, while it is set; the end of a poll.
\<close>

datatype client_op =
    Op_destroy
  | Op_on string
  | Op_fetchApi string
  | Op_response nat string nat
  | Op_message nat frame
  | Op_open nat bool
  | Op_poll_tick
  | Op_poll_settled nat bool bool

fun client_step :: "client \<Rightarrow> client_op \<Rightarrow> client" where
  "client_step c Op_destroy = destroy c"
| "client_step c (Op_on type) = on type c"
| "client_step c (Op_fetchApi route) = fetchApi route c"
| "client_step c (Op_response now route status) = c"
| "client_step c (Op_message now fr) =
     (case socket c of
        Some s \<Rightarrow> if handlers s then onmessage now fr c else c
      | None \<Rightarrow> c)"
| "client_step c (Op_open now isReconnect) =
     (case socket c of
        Some s \<Rightarrow> if handlers s then onopen now isReconnect c else c
      | None \<Rightarrow> c)"
| "client_step c Op_poll_tick = (if pollingTimer c then pollFn_request c else c)"
| "client_step c (Op_poll_settled now ok created) = pollFn_settled now ok created c"

definition client_run :: "client \<Rightarrow> client_op list \<Rightarrow> client" where
  "client_run c ops = foldl client_step c ops"


text \<open>The time of a step, for the steps that read the clock.\<close>

fun op_time :: "client_op \<Rightarrow> nat option" where
  "op_time (Op_response now route status) = Some now"
| "op_time (Op_message now fr) = Some now"
| "op_time (Op_open now isReconnect) = Some now"
| "op_time (Op_poll_settled now ok created) = Some now"
| "op_time _ = None"

text \<open>The clock does not go back: the times of the steps are non-decreasing from \<open>t\<close> on.\<close>

fun clock_ok :: "nat \<Rightarrow> client_op list \<Rightarrow> bool" where
  "clock_ok t [] = True"
| "clock_ok t (x # xs) =
     (case op_time x of None \<Rightarrow> clock_ok t xs | Some now \<Rightarrow> t \<le> now \<and> clock_ok now xs)"

text \<open>
  The number of attempts, their numbers and the delays in a trace of \<^verbatim>\<open>tryReconnect\<close>.
\<close>

fun attempts :: "reconnect_event list \<Rightarrow> nat" where
  "attempts [] = 0"
| "attempts (Attempt n # tr) = Suc (attempts tr)"
| "attempts (e # tr) = attempts tr"



section \<open>Prompt template (prompt-builder.ts)\<close>

subsection \<open>Values\<close>

text \<open>
  The values that are written into a workflow are primitive: \<^verbatim>\<open>input\<close> and \<^verbatim>\<open>inputRaw\<close>
  declare \<^verbatim>\<open>V = string | number | undefined\<close>, and the model takes the primitive values
  (these, booleans and \<^verbatim>\<open>null\<close>). A primitive value is immutable, so storing it is the
  same as storing a copy. An object given as a value would be stored by reference and
  shared with the caller; such calls are not part of the model. Numbers are modelled as
  integers (NaN and fractions are left out) and strings as lists of 8-bit characters.
\<close>

datatype prim = PUndefined | PNull | PBool bool | PNum int | PStr string

text \<open>
  A workflow is a tree: a primitive value, an array or a plain object. An object carries
  its own properties in insertion order; an array carries its \<^verbatim>\<open>length\<close> and its other own
  properties (index keys and named keys) in insertion order. The list of own properties
  determines the order in which JavaScript enumerates them (integer keys ascending, then
  the other keys as inserted). The first component says whether the object has its
  standard prototype (\<^verbatim>\<open>Object.prototype\<close> or \<^verbatim>\<open>Array.prototype\<close>) or none, which is
  what \<^verbatim>\<open>obj.__proto__ = null\<close> leaves. The trees hold no functions and no accessors and
  share no subtrees, as a workflow read from JSON does not.
\<close>

datatype proto = Standard | No_prototype

datatype jsval =
    Prim prim
  | JArr proto nat "(string \<times> jsval) list"
  | JObj proto "(string \<times> jsval) list"

fun props :: "jsval \<Rightarrow> (string \<times> jsval) list" where
  "props (Prim x) = []"
| "props (JArr pr n ps) = ps"
| "props (JObj pr ps) = ps"

fun with_props :: "jsval \<Rightarrow> (string \<times> jsval) list \<Rightarrow> jsval" where
  "with_props (Prim x) qs = Prim x"
| "with_props (JArr pr n ps) qs = JArr pr n qs"
| "with_props (JObj pr ps) qs = JObj pr qs"

fun truthy :: "jsval \<Rightarrow> bool" where
  "truthy (Prim PUndefined) = False"
| "truthy (Prim PNull) = False"
| "truthy (Prim (PBool b)) = b"
| "truthy (Prim (PNum n)) = (n \<noteq> 0)"
| "truthy (Prim (PStr s)) = (s \<noteq> [])"
| "truthy (JArr pr n ps) = True"
| "truthy (JObj pr ps) = True"

text \<open>
  \<^verbatim>\<open>structuredClone\<close> on such a tree: a new tree with the same own properties, in which
  every object and array has its standard prototype.
\<close>

primrec structuredClone :: "jsval \<Rightarrow> jsval" where
  "structuredClone (Prim x) = Prim x"
| "structuredClone (JArr pr n ps) = JArr Standard n (map (map_prod id structuredClone) ps)"
| "structuredClone (JObj pr ps) = JObj Standard (map (map_prod id structuredClone) ps)"

text \<open>Writing a key of a property list: an existing key keeps its place, a new one goes last.\<close>

fun upsert :: "'k \<Rightarrow> 'v \<Rightarrow> ('k \<times> 'v) list \<Rightarrow> ('k \<times> 'v) list" where
  "upsert k v [] = [(k, v)]"
| "upsert k v (p # ps) = (if fst p = k then (k, v) # ps else p # upsert k v ps)"

text \<open>
  A nested object is named by the keys that lead to it from the root of the workflow.
  \<open>at_path\<close> reads the value there, \<open>replace_at\<close> puts another value in its place.
\<close>

fun at_path :: "jsval \<Rightarrow> string list \<Rightarrow> jsval" where
  "at_path v [] = v"
| "at_path v (k # ks) =
     (case map_of (props v) k of None \<Rightarrow> Prim PUndefined | Some c \<Rightarrow> at_path c ks)"

fun replace_at :: "jsval \<Rightarrow> string list \<Rightarrow> jsval \<Rightarrow> jsval" where
  "replace_at v [] new = new"
| "replace_at v (k # ks) new =
     (case map_of (props v) k of
        None \<Rightarrow> v
      | Some c \<Rightarrow> with_props v (upsert k (replace_at c ks new) (props v)))"

subsection \<open>Reading and writing a property\<close>

text \<open>
  What a property access finds beyond the own properties depends on the engine: the
  names of the members of the built-in prototypes differ between editions of the language
  and between engines (some remove the accessor \<^verbatim>\<open>__proto__\<close>). A \<open>realm\<close> lists these
  names, and the conversion of a string to an array length (\<open>Some n\<close> when the string
  converts to the whole number \<open>n\<close>), which an engine computes with its own rounding. The
  members themselves are taken to be what they are in the standard library: functions and
  objects of the realm, writable, with \<^verbatim>\<open>__proto__\<close> the one accessor. Every definition
  below takes the realm as its first argument.
\<close>

record realm =
  object_members :: "string list"
  array_members :: "string list"
  string_members :: "string list"
  number_members :: "string list"
  boolean_members :: "string list"
  string_to_length :: "string \<Rightarrow> nat option"

text \<open>Whether the key is found on the prototype chain of the value.\<close>

fun inherits :: "realm \<Rightarrow> jsval \<Rightarrow> string \<Rightarrow> bool" where
  "inherits R (Prim PUndefined) k = False"
| "inherits R (Prim PNull) k = False"
| "inherits R (Prim (PBool b)) k = (k \<in> set (boolean_members R) \<or> k \<in> set (object_members R))"
| "inherits R (Prim (PNum n)) k = (k \<in> set (number_members R) \<or> k \<in> set (object_members R))"
| "inherits R (Prim (PStr s)) k = (k \<in> set (string_members R) \<or> k \<in> set (object_members R))"
| "inherits R (JArr pr n ps) k =
     (pr = Standard \<and> (k \<in> set (array_members R) \<or> k \<in> set (object_members R)))"
| "inherits R (JObj pr ps) k = (pr = Standard \<and> k \<in> set (object_members R))"

text \<open>
  The index that a key denotes: the keys \<open>0\<close>, \<open>1\<close>, \<open>2\<close>, ... written in decimal without a
  sign and without leading zeros. An index of an array is below \<open>2^32 - 1\<close>.
\<close>

definition digit :: "char \<Rightarrow> nat option" where
  "digit c = findIndex (\<lambda>d. d = c) ''0123456789''"

definition decimal :: "string \<Rightarrow> nat option" where
  "decimal cs =
     foldl (\<lambda>acc c. case acc of None \<Rightarrow> None
                     | Some n \<Rightarrow> (case digit c of None \<Rightarrow> None | Some d \<Rightarrow> Some (10 * n + d)))
       (Some 0) cs"

definition canonical_index :: "string \<Rightarrow> nat option" where
  "canonical_index k =
     (if k = [] \<or> (hd k = CHR ''0'' \<and> k \<noteq> ''0'') then None else decimal k)"

definition array_index :: "string \<Rightarrow> nat option" where
  "array_index k =
     (case canonical_index k of
        None \<Rightarrow> None
      | Some i \<Rightarrow> if i < 4294967295 then Some i else None)"

text \<open>
  The own property \<open>k\<close> of a value: a stored property of an object or an array, the
  \<^verbatim>\<open>length\<close> of an array, and the \<^verbatim>\<open>length\<close> and the characters of a string.
\<close>

fun own_property :: "jsval \<Rightarrow> string \<Rightarrow> jsval option" where
  "own_property (Prim (PStr s)) k =
     (if k = ''length'' then Some (Prim (PNum (int (length s))))
      else (case canonical_index k of
              None \<Rightarrow> None
            | Some i \<Rightarrow> if i < length s then Some (Prim (PStr [s ! i])) else None))"
| "own_property (Prim x) k = None"
| "own_property (JArr pr n ps) k =
     (if k = ''length'' then Some (Prim (PNum (int n))) else map_of ps k)"
| "own_property (JObj pr ps) k = map_of ps k"

text \<open>
  Reading \<^verbatim>\<open>current[key]\<close>. On \<^verbatim>\<open>undefined\<close> and \<^verbatim>\<open>null\<close> the read throws
  (\<open>Unreadable\<close>). An own property is found first. A key that is not an own property but
  is found on the prototype chain reads a member of a built-in prototype (for
  \<^verbatim>\<open>__proto__\<close> the prototype itself, for \<^verbatim>\<open>constructor\<close> the constructor function): the
  result \<open>Inherited\<close>. Any other key reads \<^verbatim>\<open>undefined\<close>: \<open>Absent\<close>.
\<close>

datatype lookup = Found jsval | Inherited | Absent | Unreadable

definition js_get :: "realm \<Rightarrow> jsval \<Rightarrow> string \<Rightarrow> lookup" where
  "js_get R v k =
     (if v = Prim PUndefined \<or> v = Prim PNull then Unreadable
      else (case own_property v k of
              Some x \<Rightarrow> Found x
            | None \<Rightarrow> if inherits R v k then Inherited else Absent))"

datatype js_error = Key_not_found string | Invalid_key string | TypeError | Invalid_array_length

text \<open>
  What is assigned to a property: a primitive value, or the new empty object of
  \<^verbatim>\<open>current[key] = {}\<close>.
\<close>

datatype assigned = Value prim | Fresh_object

fun stored :: "assigned \<Rightarrow> jsval" where
  "stored (Value x) = Prim x"
| "stored Fresh_object = JObj Standard []"

text \<open>
  The number an assigned value converts to, when that is a valid array length:
  \<^verbatim>\<open>null\<close> and \<^verbatim>\<open>false\<close> give 0, \<^verbatim>\<open>true\<close> gives 1, a number itself when it is between 0
  and \<open>2^32 - 1\<close>, a string what the realm says; \<^verbatim>\<open>undefined\<close> and an empty object convert
  to NaN.
\<close>

fun to_length :: "realm \<Rightarrow> assigned \<Rightarrow> nat option" where
  "to_length R Fresh_object = None"
| "to_length R (Value PUndefined) = None"
| "to_length R (Value PNull) = Some 0"
| "to_length R (Value (PBool b)) = Some (if b then 1 else 0)"
| "to_length R (Value (PNum i)) = (if 0 \<le> i \<and> i < 4294967296 then Some (nat i) else None)"
| "to_length R (Value (PStr s)) =
     (case string_to_length R s of
        None \<Rightarrow> None
      | Some m \<Rightarrow> if m < 4294967296 then Some m else None)"

text \<open>
  Defining or replacing an own data property, which is what an assignment does when no
  setter is reached. The class is strict-mode code, so on a primitive value it throws a
  \<^verbatim>\<open>TypeError\<close>. On an array the key \<^verbatim>\<open>length\<close> sets the length, dropping the elements
  from that index on, or throws a \<^verbatim>\<open>RangeError\<close> when the value is not a valid length; an
  index key beyond the end extends the array.
\<close>

fun define_own :: "realm \<Rightarrow> jsval \<Rightarrow> string \<Rightarrow> assigned \<Rightarrow> js_error + jsval" where
  "define_own R (Prim x) k a = Inl TypeError"
| "define_own R (JObj pr ps) k a = Inr (JObj pr (upsert k (stored a) ps))"
| "define_own R (JArr pr n ps) k a =
     (if k = ''length'' then
        (case to_length R a of
           None \<Rightarrow> Inl Invalid_array_length
         | Some m \<Rightarrow>
             Inr (JArr pr m
                    (filter (\<lambda>(key, x). case array_index key of None \<Rightarrow> True | Some i \<Rightarrow> i < m) ps)))
      else Inr (JArr pr (case array_index k of None \<Rightarrow> n | Some i \<Rightarrow> max n (Suc i))
                  (upsert k (stored a) ps)))"

fun without_prototype :: "jsval \<Rightarrow> jsval" where
  "without_prototype (Prim x) = Prim x"
| "without_prototype (JArr pr n ps) = JArr No_prototype n ps"
| "without_prototype (JObj pr ps) = JObj No_prototype ps"

text \<open>
  The assignment \<^verbatim>\<open>current[key] = value\<close> of a primitive value; the result is the new
  state of \<^verbatim>\<open>current\<close>. On \<^verbatim>\<open>undefined\<close> and \<^verbatim>\<open>null\<close> it throws. When the key is
  \<^verbatim>\<open>__proto__\<close>, not an own property, and found on the prototype chain, the setter of
  \<^verbatim>\<open>Object.prototype\<close> runs: the value \<^verbatim>\<open>null\<close> removes the prototype of an object, any
  other primitive value is ignored, and on a primitive \<^verbatim>\<open>current\<close> nothing happens. In
  every other case an own data property is defined.
\<close>

definition js_set :: "realm \<Rightarrow> jsval \<Rightarrow> string \<Rightarrow> prim \<Rightarrow> js_error + jsval" where
  "js_set R v k x =
     (if v = Prim PUndefined \<or> v = Prim PNull then Inl TypeError
      else if own_property v k = None \<and> k = ''__proto__'' \<and> inherits R v k then
        (if x = PNull then Inr (without_prototype v) else Inr v)
      else define_own R v k (Value x))"

text \<open>\<^verbatim>\<open>String.prototype.split(".")\<close>: at least one segment, empty segments kept.\<close>

fun split_dot :: "string \<Rightarrow> string list" where
  "split_dot [] = [[]]"
| "split_dot (c # cs) =
     (if c = CHR ''.'' then [] # split_dot cs
      else (case split_dot cs of [] \<Rightarrow> [[c]] | w # ws \<Rightarrow> (c # w) # ws))"

subsection \<open>Walking a path\<close>

text \<open>
  The variable \<^verbatim>\<open>current\<close> of the two path loops is an object or array of the workflow,
  named by its path, or a primitive value that was read on the way.
\<close>

datatype cursor = At "string list" | Detached prim

fun current_value :: "jsval \<Rightarrow> cursor \<Rightarrow> jsval" where
  "current_value tree (At p) = at_path tree p"
| "current_value tree (Detached x) = Prim x"

fun write_back :: "jsval \<Rightarrow> cursor \<Rightarrow> jsval \<Rightarrow> jsval" where
  "write_back tree (At p) v = replace_at tree p v"
| "write_back tree (Detached x) v = tree"

fun enter :: "cursor \<Rightarrow> string \<Rightarrow> jsval \<Rightarrow> cursor" where
  "enter cur k (Prim x) = Detached x"
| "enter (At p) k v = At (p @ [k])"
| "enter (Detached x) k v = Detached x"

text \<open>
  How a call, a loop or a step of a loop ends: it returns, it throws, or it reads an
  inherited member and goes on inside an object of the realm. What the code does there
  (it may create properties on built-in objects, and it may throw) is not followed: the
  result \<open>Escapes\<close> says that the operation left the workflow, and nothing more.
\<close>

datatype 'a result = Returns 'a | Throws js_error | Escapes

text \<open>
  The body of the loop over all keys but the last:
  \<^verbatim>\<open>if (!current[k]) current[k] = {}; current = current[k]\<close>. The assignment is made when
  the read found nothing or a falsy own value, so it defines an own property, and the
  second read finds the new object.
\<close>

definition descend :: "realm \<Rightarrow> jsval \<Rightarrow> cursor \<Rightarrow> string \<Rightarrow> (jsval \<times> cursor) result" where
  "descend R tree cur k =
     (let current = current_value tree cur;
          create = (case define_own R current k Fresh_object of
                      Inl e \<Rightarrow> Throws e
                    | Inr current' \<Rightarrow>
                        Returns (write_back tree cur current', enter cur k (stored Fresh_object)))
      in case js_get R current k of
           Unreadable \<Rightarrow> Throws TypeError
         | Inherited \<Rightarrow> Escapes
         | Found v \<Rightarrow> if truthy v then Returns (tree, enter cur k v) else create
         | Absent \<Rightarrow> create)"

text \<open>
  The loop of \<^verbatim>\<open>input\<close>, and the loop of \<^verbatim>\<open>inputRaw\<close>, which skips the keys
  \<^verbatim>\<open>__proto__\<close> and \<^verbatim>\<open>constructor\<close> (\<open>kept\<close> says that a key is not one of the two). The
  workflow is returned as it is when the loop ends: the objects created on the way stay.
\<close>

fun walk :: "realm \<Rightarrow> jsval \<Rightarrow> cursor \<Rightarrow> string list \<Rightarrow> jsval \<times> cursor result" where
  "walk R tree cur [] = (tree, Returns cur)"
| "walk R tree cur (k # ks) =
     (case descend R tree cur k of
        Returns (tree', cur') \<Rightarrow> walk R tree' cur' ks
      | Throws e \<Rightarrow> (tree, Throws e)
      | Escapes \<Rightarrow> (tree, Escapes))"

definition kept :: "string \<Rightarrow> bool" where
  "kept k = (\<not> (k = ''__proto__'' \<or> k = ''constructor''))"

fun walk_raw :: "realm \<Rightarrow> jsval \<Rightarrow> cursor \<Rightarrow> string list \<Rightarrow> jsval \<times> cursor result" where
  "walk_raw R tree cur [] = (tree, Returns cur)"
| "walk_raw R tree cur (k # ks) =
     (if k = ''__proto__'' \<or> k = ''constructor'' then walk_raw R tree cur ks
      else (case descend R tree cur k of
              Returns (tree', cur') \<Rightarrow> walk_raw R tree' cur' ks
            | Throws e \<Rightarrow> (tree, Throws e)
            | Escapes \<Rightarrow> (tree, Escapes)))"

text \<open>The assignment \<^verbatim>\<open>current[last] = value\<close>, written back into the workflow.\<close>

definition assign :: "realm \<Rightarrow> jsval \<Rightarrow> cursor \<Rightarrow> string \<Rightarrow> prim \<Rightarrow> js_error + jsval" where
  "assign R tree cur k x =
     (case js_set R (current_value tree cur) k x of
        Inl e \<Rightarrow> Inl e
      | Inr current' \<Rightarrow> Inr (write_back tree cur current'))"

text \<open>
  One path of \<^verbatim>\<open>input\<close>, given its keys: the loop, then the assignment. And the same for
  \<^verbatim>\<open>inputRaw\<close>, where the assignment is not made when the last key is \<^verbatim>\<open>__proto__\<close> or
  \<^verbatim>\<open>constructor\<close>.
\<close>

definition set_path :: "realm \<Rightarrow> jsval \<Rightarrow> string list \<Rightarrow> prim \<Rightarrow> jsval \<times> unit result" where
  "set_path R tree keys x =
     (case walk R tree (At []) (butlast keys) of
        (tree', Returns cur) \<Rightarrow>
          (case assign R tree' cur (last keys) x of
             Inl e \<Rightarrow> (tree', Throws e)
           | Inr tree'' \<Rightarrow> (tree'', Returns ()))
      | (tree', Throws e) \<Rightarrow> (tree', Throws e)
      | (tree', Escapes) \<Rightarrow> (tree', Escapes))"

definition set_path_raw :: "realm \<Rightarrow> jsval \<Rightarrow> string list \<Rightarrow> prim \<Rightarrow> jsval \<times> unit result" where
  "set_path_raw R tree keys x =
     (case walk_raw R tree (At []) (butlast keys) of
        (tree', Returns cur) \<Rightarrow>
          if last keys \<noteq> ''__proto__'' \<and> last keys \<noteq> ''constructor'' then
            (case assign R tree' cur (last keys) x of
               Inl e \<Rightarrow> (tree', Throws e)
             | Inr tree'' \<Rightarrow> (tree'', Returns ()))
          else (tree', Returns ())
      | (tree', Throws e) \<Rightarrow> (tree', Throws e)
      | (tree', Escapes) \<Rightarrow> (tree', Escapes))"

subsection \<open>Builders on a heap\<close>

text \<open>
  Builders, the workflow objects and the arrays of paths are objects with an identity:
  \<^verbatim>\<open>setRawInputNode\<close> stores the caller's array, \<^verbatim>\<open>clone\<close> copies the maps shallowly, and
  \<^verbatim>\<open>input\<close> writes into \<^verbatim>\<open>this.prompt\<close>. So they live on a heap and are named by their
  index. A workflow object is stored as a whole tree. The value of an input name is
  \<^verbatim>\<open>undefined\<close>, a string, or a reference to an array of strings.

  \<^verbatim>\<open>mapInputKeys\<close> is an object of its own, with own properties (the names) and a
  prototype. The prototype is \<^verbatim>\<open>Object.prototype\<close> unless an array was assigned to the
  name \<^verbatim>\<open>__proto__\<close>, which makes that array the prototype: \<open>inputProto\<close> holds its
  address then. \<^verbatim>\<open>mapOutputKeys\<close> only ever receives strings, so its prototype stays.
  The two maps and the bypass list are replaced by copies whenever a builder is cloned, so
  they are values in the builder. \<open>escapes\<close> records the operations that left the
  workflow, by the builder they were called on.
\<close>

datatype binding = Unbound | Path string | Paths nat

record builder =
  prompt :: nat
  mapInputKeys :: "(string \<times> binding) list"
  inputProto :: "nat option"
  mapOutputKeys :: "(string \<times> string option) list"
  bypassNodes :: "string list"

record heap =
  objects :: "jsval list"
  arrays :: "string list list"
  builders :: "builder list"
  escapes :: "nat list"

definition set_builder :: "nat \<Rightarrow> builder \<Rightarrow> heap \<Rightarrow> heap" where
  "set_builder a b h = h\<lparr>builders := (builders h)[a := b]\<rparr>"

text \<open>
  The assignment \<^verbatim>\<open>this.mapInputKeys[name] = value\<close>. When the name is \<^verbatim>\<open>__proto__\<close> and
  the realm has that accessor, the setter runs instead of a property being written: an
  array becomes the prototype of the map, a string and \<^verbatim>\<open>undefined\<close> are ignored.
  Otherwise the own property is written. The same for \<^verbatim>\<open>this.mapOutputKeys[name] = value\<close>.
\<close>

definition is_proto_setter :: "realm \<Rightarrow> string \<Rightarrow> bool" where
  "is_proto_setter R name = (name = ''__proto__'' \<and> name \<in> set (object_members R))"

definition assign_input :: "realm \<Rightarrow> string \<Rightarrow> binding \<Rightarrow> builder \<Rightarrow> builder" where
  "assign_input R name bnd b =
     (if is_proto_setter R name \<and> map_of (mapInputKeys b) name = None then
        (case bnd of Paths a \<Rightarrow> b\<lparr>inputProto := Some a\<rparr> | _ \<Rightarrow> b)
      else b\<lparr>mapInputKeys := upsert name bnd (mapInputKeys b)\<rparr>)"

definition assign_output :: "realm \<Rightarrow> string \<Rightarrow> string option \<Rightarrow> builder \<Rightarrow> builder" where
  "assign_output R name v b =
     (if is_proto_setter R name \<and> map_of (mapOutputKeys b) name = None then b
      else b\<lparr>mapOutputKeys := upsert name v (mapOutputKeys b)\<rparr>)"

text \<open>
  The constructor: \<^verbatim>\<open>structuredClone\<close> makes a new object, and each name is assigned the
  value \<^verbatim>\<open>undefined\<close> in its map (the two \<^verbatim>\<open>forEach\<close> loops are \<open>register_names\<close>).
  The result is the new builder.
\<close>

definition register_names :: "realm \<Rightarrow> string list \<Rightarrow> string list \<Rightarrow> builder \<Rightarrow> builder" where
  "register_names R inputKeys outputKeys b =
     foldl (\<lambda>b key. assign_output R key None b)
       (foldl (\<lambda>b key. assign_input R key Unbound b) b inputKeys) outputKeys"

definition new_PromptBuilder ::
  "realm \<Rightarrow> nat \<Rightarrow> string list \<Rightarrow> string list \<Rightarrow> heap \<Rightarrow> heap \<times> nat" where
  "new_PromptBuilder R w inputKeys outputKeys h =
     (let copy = length (objects h);
          h = h\<lparr>objects := objects h @ [structuredClone (objects h ! w)]\<rparr>;
          b = register_names R inputKeys outputKeys
                \<lparr>prompt = copy, mapInputKeys = [], inputProto = None, mapOutputKeys = [],
                 bypassNodes = []\<rparr>
      in (h\<lparr>builders := builders h @ [b]\<rparr>, length (builders h)))"

text \<open>
  \<^verbatim>\<open>clone\<close>: a new builder is constructed from \<^verbatim>\<open>this.prompt\<close> and the own names of the
  two maps; then its maps are replaced by spread copies of the maps of \<^verbatim>\<open>this\<close> (new
  objects with the same own properties and the standard prototype) and its bypass list by
  a copy of the list of \<^verbatim>\<open>this\<close>.
\<close>

definition clone :: "realm \<Rightarrow> nat \<Rightarrow> heap \<Rightarrow> heap \<times> nat" where
  "clone R this h =
     (let b = builders h ! this;
          (h, newBuilder) = new_PromptBuilder R (prompt b) (map fst (mapInputKeys b))
                               (map fst (mapOutputKeys b)) h;
          nb = builders h ! newBuilder;
          nb = nb\<lparr>mapInputKeys := mapInputKeys b, inputProto := None\<rparr>;
          nb = nb\<lparr>mapOutputKeys := mapOutputKeys b\<rparr>;
          nb = nb\<lparr>bypassNodes := bypassNodes b\<rparr>
      in (set_builder newBuilder nb h, newBuilder))"

text \<open>\<^verbatim>\<open>bypass\<close>: the nodes (one node is wrapped into a list) are pushed on the clone's list.\<close>

definition bypass :: "realm \<Rightarrow> nat \<Rightarrow> string list \<Rightarrow> heap \<Rightarrow> heap \<times> nat" where
  "bypass R this nodes h =
     (let (h, newBuilder) = clone R this h;
          nb = builders h ! newBuilder
      in (set_builder newBuilder (nb\<lparr>bypassNodes := bypassNodes nb @ nodes\<rparr>) h, newBuilder))"

text \<open>
  \<^verbatim>\<open>reinstate\<close>: for each node, \<^verbatim>\<open>splice(indexOf(node), 1)\<close> on the clone's list. For a
  node that is not in the list \<^verbatim>\<open>indexOf\<close> is -1 and \<^verbatim>\<open>splice(-1, 1)\<close> removes the last
  element.
\<close>

definition splice_out :: "string list \<Rightarrow> string \<Rightarrow> string list" where
  "splice_out xs node =
     (case indexOf xs node of
        Some i \<Rightarrow> take i xs @ drop (Suc i) xs
      | None \<Rightarrow> butlast xs)"

definition reinstate :: "realm \<Rightarrow> nat \<Rightarrow> string list \<Rightarrow> heap \<Rightarrow> heap \<times> nat" where
  "reinstate R this nodes h =
     (let (h, newBuilder) = clone R this h;
          nb = builders h ! newBuilder
      in (set_builder newBuilder (nb\<lparr>bypassNodes := foldl splice_out (bypassNodes nb) nodes\<rparr>) h,
          newBuilder))"

text \<open>A path argument: one string, or a reference to an array of strings of the caller.\<close>

datatype key_arg = Key string | Keys nat

fun binding_of :: "key_arg \<Rightarrow> binding" where
  "binding_of (Key s) = Path s"
| "binding_of (Keys a) = Paths a"

text \<open>
  \<^verbatim>\<open>setRawInputNode\<close> (\<^verbatim>\<open>setInputNode\<close> calls it): the key is assigned to the name in
  \<^verbatim>\<open>this.mapInputKeys\<close>, then \<^verbatim>\<open>this.clone()\<close> is returned. No path is inspected.
\<close>

definition setRawInputNode :: "realm \<Rightarrow> nat \<Rightarrow> string \<Rightarrow> key_arg \<Rightarrow> heap \<Rightarrow> heap \<times> nat" where
  "setRawInputNode R this inp key h =
     (let h = set_builder this (assign_input R inp (binding_of key) (builders h ! this)) h
      in clone R this h)"

definition setInputNode :: "realm \<Rightarrow> nat \<Rightarrow> string \<Rightarrow> key_arg \<Rightarrow> heap \<Rightarrow> heap \<times> nat" where
  "setInputNode R this inp key h = setRawInputNode R this inp key h"

text \<open>
  Reading \<^verbatim>\<open>this.mapInputKeys[name]\<close>: the own property when there is one. Otherwise the
  prototype chain: with the standard prototype a member of \<^verbatim>\<open>Object.prototype\<close> (a
  function or object of the realm) or \<^verbatim>\<open>undefined\<close>; with an array as prototype its
  length, its elements, the array itself for \<^verbatim>\<open>__proto__\<close>, a member of
  \<^verbatim>\<open>Array.prototype\<close> or \<^verbatim>\<open>Object.prototype\<close>, or \<^verbatim>\<open>undefined\<close>.
\<close>

datatype name_value = NUndefined | NString string | NArray nat | NNumber nat | NBuiltin

definition read_input :: "realm \<Rightarrow> heap \<Rightarrow> builder \<Rightarrow> string \<Rightarrow> name_value" where
  "read_input R h b name =
     (case map_of (mapInputKeys b) name of
        Some Unbound \<Rightarrow> NUndefined
      | Some (Path s) \<Rightarrow> NString s
      | Some (Paths a) \<Rightarrow> NArray a
      | None \<Rightarrow>
          (case inputProto b of
             None \<Rightarrow> if name \<in> set (object_members R) then NBuiltin else NUndefined
           | Some a \<Rightarrow>
               if name = ''length'' then NNumber (length (arrays h ! a))
               else if (case array_index name of None \<Rightarrow> False | Some i \<Rightarrow> i < length (arrays h ! a))
               then NString (arrays h ! a ! the (array_index name))
               else if is_proto_setter R name then NArray a
               else if name \<in> set (array_members R) \<or> name \<in> set (object_members R) then NBuiltin
               else NUndefined))"

text \<open>
  \<^verbatim>\<open>appendRawInputNode\<close> (\<^verbatim>\<open>appendInputNode\<close> calls it): when the name reads a string, a
  new one-element array is assigned to it; then the name is read again and the keys are
  pushed on the array it reads, whoever else holds that array. \<^verbatim>\<open>undefined\<close> is left as it
  is (\<^verbatim>\<open>?.\<close>); a number, a string or a member of a built-in prototype has no \<^verbatim>\<open>push\<close> to
  call, which throws a \<^verbatim>\<open>TypeError\<close>. Then \<^verbatim>\<open>this.clone()\<close> is returned.
\<close>

definition appendRawInputNode ::
  "realm \<Rightarrow> nat \<Rightarrow> string \<Rightarrow> key_arg \<Rightarrow> heap \<Rightarrow> heap \<times> nat result" where
  "appendRawInputNode R this inp key h0 =
     (let keys = (case key of Key s \<Rightarrow> [s] | Keys a \<Rightarrow> arrays h0 ! a);
          h = (case read_input R h0 (builders h0 ! this) inp of
                 NString s \<Rightarrow>
                   set_builder this
                     (assign_input R inp (Paths (length (arrays h0))) (builders h0 ! this))
                     (h0\<lparr>arrays := arrays h0 @ [[s]]\<rparr>)
               | _ \<Rightarrow> h0)
      in case read_input R h (builders h ! this) inp of
           NUndefined \<Rightarrow> (case clone R this h of (h', nb) \<Rightarrow> (h', Returns nb))
         | NArray a \<Rightarrow>
             (case clone R this (h\<lparr>arrays := (arrays h)[a := arrays h ! a @ keys]\<rparr>) of
                (h', nb) \<Rightarrow> (h', Returns nb))
         | _ \<Rightarrow> (h, Throws TypeError))"

definition appendInputNode ::
  "realm \<Rightarrow> nat \<Rightarrow> string \<Rightarrow> key_arg \<Rightarrow> heap \<Rightarrow> heap \<times> nat result" where
  "appendInputNode R this inp key h = appendRawInputNode R this inp key h"

definition setRawOutputNode :: "realm \<Rightarrow> nat \<Rightarrow> string \<Rightarrow> string \<Rightarrow> heap \<Rightarrow> heap \<times> nat" where
  "setRawOutputNode R this output key h =
     (let h = set_builder this (assign_output R output (Some key) (builders h ! this)) h
      in clone R this h)"

definition setOutputNode :: "realm \<Rightarrow> nat \<Rightarrow> string \<Rightarrow> string \<Rightarrow> heap \<Rightarrow> heap \<times> nat" where
  "setOutputNode R this output key h = setRawOutputNode R this output key h"

text \<open>
  Modelled from the spec: the enumeration \<^verbatim>\<open>OSType\<close> and the two functions
  \<^verbatim>\<open>encodeNTPath\<close> and \<^verbatim>\<open>encodePosixPath\<close> are declared in files that are not among the
  sources. The specification lists the values POSIX, NT and Unknown, and says that with NT
  forward slashes are replaced with backslashes and with POSIX backslashes with forward
  slashes.
\<close>

datatype OSType = POSIX | NT | Unknown

definition encodeNTPath :: "string \<Rightarrow> string" where
  "encodeNTPath path = map (\<lambda>c. if c = CHR ''/'' then CHR 0x5C else c) path"

definition encodePosixPath :: "string \<Rightarrow> string" where
  "encodePosixPath path = map (\<lambda>c. if c = CHR 0x5C then CHR ''/'' else c) path"

definition encode_value :: "OSType option \<Rightarrow> prim \<Rightarrow> prim" where
  "encode_value encodeOs v =
     (case (encodeOs, v) of
        (Some NT, PStr s) \<Rightarrow> PStr (encodeNTPath s)
      | (Some POSIX, PStr s) \<Rightarrow> PStr (encodePosixPath s)
      | _ \<Rightarrow> v)"

text \<open>
  The body of the loop over the bound paths in \<^verbatim>\<open>input\<close>, for the keys of one path: the
  value is written through them into \<^verbatim>\<open>this.prompt\<close>. An exception leaves what was written
  so far.
\<close>

definition store_prompt :: "nat \<Rightarrow> jsval \<Rightarrow> heap \<Rightarrow> heap" where
  "store_prompt a tree h = h\<lparr>objects := (objects h)[a := tree]\<rparr>"

definition write_keys :: "realm \<Rightarrow> nat \<Rightarrow> string list \<Rightarrow> prim \<Rightarrow> heap \<Rightarrow> heap \<times> nat result" where
  "write_keys R this keys v h =
     (let a = prompt (builders h ! this)
      in case set_path R (objects h ! a) keys v of
           (tree, Returns u) \<Rightarrow> (store_prompt a tree h, Returns this)
         | (tree, Throws e) \<Rightarrow> (store_prompt a tree h, Throws e)
         | (tree, Escapes) \<Rightarrow> ((store_prompt a tree h)\<lparr>escapes := escapes h @ [this]\<rparr>, Escapes))"

fun write_paths :: "realm \<Rightarrow> nat \<Rightarrow> string list \<Rightarrow> prim \<Rightarrow> heap \<Rightarrow> heap \<times> nat result" where
  "write_paths R this [] v h = (h, Returns this)"
| "write_paths R this (path # rest) v h =
     (case write_keys R this (split_dot path) v h of
        (h', Returns t) \<Rightarrow> write_paths R this rest v h'
      | (h', Throws e) \<Rightarrow> (h', Throws e)
      | (h', Escapes) \<Rightarrow> (h', Escapes))"

text \<open>
  \<^verbatim>\<open>input\<close>: nothing happens for the value \<^verbatim>\<open>undefined\<close>. Otherwise the name is read: a
  falsy value (\<^verbatim>\<open>undefined\<close>, the empty string, the number 0) throws \<^verbatim>\<open>Key not found\<close>; a
  string is one path; an array is iterated; a number or a member of a built-in prototype
  is not iterable, which throws a \<^verbatim>\<open>TypeError\<close>. The value is written at every path. The
  result is \<^verbatim>\<open>this\<close>.
\<close>

definition input ::
  "realm \<Rightarrow> nat \<Rightarrow> string \<Rightarrow> prim \<Rightarrow> OSType option \<Rightarrow> heap \<Rightarrow> heap \<times> nat result" where
  "input R this key val encodeOs h =
     (if val \<noteq> PUndefined then
        let valueToSet = encode_value encodeOs val
        in (case read_input R h (builders h ! this) key of
              NUndefined \<Rightarrow> (h, Throws (Key_not_found key))
            | NString s \<Rightarrow>
                if s = [] then (h, Throws (Key_not_found key))
                else write_paths R this [s] valueToSet h
            | NArray a \<Rightarrow> write_paths R this (arrays h ! a) valueToSet h
            | NNumber n \<Rightarrow> if n = 0 then (h, Throws (Key_not_found key)) else (h, Throws TypeError)
            | NBuiltin \<Rightarrow> (h, Throws TypeError))
      else (h, Returns this))"

text \<open>
  \<^verbatim>\<open>inputRaw\<close>: the key itself is a path. It throws when the whole key is one of the three
  reserved names; inside a dotted key the names \<^verbatim>\<open>__proto__\<close> and \<^verbatim>\<open>constructor\<close> are
  skipped. The result is \<^verbatim>\<open>this\<close>.
\<close>

definition inputRaw ::
  "realm \<Rightarrow> nat \<Rightarrow> string \<Rightarrow> prim \<Rightarrow> OSType option \<Rightarrow> heap \<Rightarrow> heap \<times> nat result" where
  "inputRaw R this key val encodeOs h =
     (if key = ''__proto__'' \<or> key = ''constructor'' \<or> key = ''prototype''
      then (h, Throws (Invalid_key key))
      else if val \<noteq> PUndefined then
        let valueToSet = encode_value encodeOs val;
            a = prompt (builders h ! this)
        in (case set_path_raw R (objects h ! a) (split_dot key) valueToSet of
              (tree, Returns u) \<Rightarrow> (store_prompt a tree h, Returns this)
            | (tree, Throws e) \<Rightarrow> (store_prompt a tree h, Throws e)
            | (tree, Escapes) \<Rightarrow>
                ((store_prompt a tree h)\<lparr>escapes := escapes h @ [this]\<rparr>, Escapes))
      else (h, Returns this))"

text \<open>
  The loop of \<^verbatim>\<open>input\<close> over the keys of a path without the assignment that follows it,
  as an operation on the prompt of a builder: what \<^verbatim>\<open>inputRaw\<close> is compared with when the
  last key of its path is one that it does not write.
\<close>

definition walk_keys :: "realm \<Rightarrow> nat \<Rightarrow> string list \<Rightarrow> heap \<Rightarrow> heap \<times> nat result" where
  "walk_keys R this keys h =
     (let a = prompt (builders h ! this)
      in case walk R (objects h ! a) (At []) keys of
           (tree, Returns cur) \<Rightarrow> (store_prompt a tree h, Returns this)
         | (tree, Throws e) \<Rightarrow> (store_prompt a tree h, Throws e)
         | (tree, Escapes) \<Rightarrow> ((store_prompt a tree h)\<lparr>escapes := escapes h @ [this]\<rparr>, Escapes))"

subsection \<open>What can be observed of a builder\<close>

text \<open>
  The workflow of a builder, its names with the arrays read out, the array that is the
  prototype of its input map (if one is), its output map and its bypass list. A clone of
  a builder shows a deep copy of the workflow and a map with the standard prototype.
\<close>

datatype bound = No_path | One_path string | Many_paths "string list"

fun deref :: "heap \<Rightarrow> binding \<Rightarrow> bound" where
  "deref h Unbound = No_path"
| "deref h (Path s) = One_path s"
| "deref h (Paths a) = Many_paths (arrays h ! a)"

record view =
  workflow :: jsval
  inputMap :: "(string \<times> bound) list"
  inputInherited :: "string list option"
  outputMap :: "(string \<times> string option) list"
  bypassed :: "string list"

definition view_of :: "heap \<Rightarrow> nat \<Rightarrow> view" where
  "view_of h this =
     (let b = builders h ! this
      in \<lparr>workflow = objects h ! prompt b,
          inputMap = map (\<lambda>(name, bnd). (name, deref h bnd)) (mapInputKeys b),
          inputInherited = map_option (\<lambda>a. arrays h ! a) (inputProto b),
          outputMap = mapOutputKeys b,
          bypassed = bypassNodes b\<rparr>)"

definition copy_of :: "view \<Rightarrow> view" where
  "copy_of v = v\<lparr>workflow := structuredClone (workflow v), inputInherited := None\<rparr>"

subsection \<open>Sequences of template operations\<close>






text \<open>
  An object of the caller: it exists, and it is not the internal copy of any builder.
\<close>

definition caller_object :: "heap \<Rightarrow> nat \<Rightarrow> bool" where
  "caller_object h w \<longleftrightarrow> w < length (objects h) \<and> list_all (\<lambda>b. prompt b \<noteq> w) (builders h)"

section \<open>Example states\<close>

text \<open>Concrete pools, templates and clients at which the theorems below are evaluated.\<close>

definition zero_pool :: "unit pool" where
  "zero_pool =
     \<lparr>clientStates = [\<lparr>cid = ''a'', queueRemaining = 0, locked = True, online = True\<rparr>,
                      \<lparr>cid = ''b'', queueRemaining = 2, locked = False, online = True\<rparr>],
      mode = PICK_ZERO, jobQueue = [], routineIdx = Some 0, maxQueueSize = 1000\<rparr>"

definition lowest_pool :: "unit pool" where
  "lowest_pool =
     \<lparr>clientStates = [\<lparr>cid = ''a'', queueRemaining = 0, locked = True, online = True\<rparr>],
      mode = PICK_LOWEST, jobQueue = [], routineIdx = Some 0, maxQueueSize = 1000\<rparr>"


text \<open>
  Two free clients \<open>a\<close> and \<open>b\<close> in \<^verbatim>\<open>PICK_ZERO\<close> mode, and a world in which the job
  throws on client 0 and resolves on any other, the backend of the failing client reports
  \<^verbatim>\<open>execution_error\<close> (which unlocks it), and nothing else happens. In each world
  below \<^verbatim>\<open>client.id\<close> is the registered id of the client.
\<close>

definition two_clients :: "nat pool" where
  "two_clients =
     \<lparr>clientStates = [\<lparr>cid = ''a'', queueRemaining = 0, locked = False, online = True\<rparr>,
                      \<lparr>cid = ''b'', queueRemaining = 0, locked = False, online = True\<rparr>],
      mode = PICK_ZERO, jobQueue = [], routineIdx = Some 0, maxQueueSize = 1000\<rparr>"

definition fails_on_first :: world where
  "fails_on_first =
     \<lparr>job_ok = (\<lambda>attempt idx. idx \<noteq> 0),
      during = (\<lambda>attempt. [Execution_error 0]),
      arriving = (\<lambda>attempt. []),
      client_id = (\<lambda>attempt idx. [''a'', ''b''] ! idx)\<rparr>"

text \<open>
  One free client \<open>a\<close>, and a world in which the job always throws and the backend
  reports \<^verbatim>\<open>execution_error\<close> each time.
\<close>

definition one_client :: "nat pool" where
  "one_client =
     \<lparr>clientStates = [\<lparr>cid = ''a'', queueRemaining = 0, locked = False, online = True\<rparr>],
      mode = PICK_ZERO, jobQueue = [], routineIdx = Some 0, maxQueueSize = 1000\<rparr>"

definition always_fails :: world where
  "always_fails =
     \<lparr>job_ok = (\<lambda>attempt idx. False),
      during = (\<lambda>attempt. [Execution_error 0]),
      arriving = (\<lambda>attempt. []),
      client_id = (\<lambda>attempt idx. [''a'', ''b''] ! idx)\<rparr>"

text \<open>
  Client \<open>a\<close> is online and client \<open>b\<close> is not when \<^verbatim>\<open>run\<close> is called; \<open>b\<close> sends its
  first status message while the second attempt waits for a client. The job always throws.
\<close>

definition late_client :: "nat pool" where
  "late_client =
     \<lparr>clientStates = [\<lparr>cid = ''a'', queueRemaining = 0, locked = False, online = True\<rparr>,
                      \<lparr>cid = ''b'', queueRemaining = 0, locked = False, online = False\<rparr>],
      mode = PICK_ZERO, jobQueue = [], routineIdx = Some 0, maxQueueSize = 1000\<rparr>"

definition b_comes_online :: world where
  "b_comes_online =
     \<lparr>job_ok = (\<lambda>attempt idx. False),
      during = (\<lambda>attempt. []),
      arriving = (\<lambda>attempt. if attempt = 2 then [[Status 1 0]] else []),
      client_id = (\<lambda>attempt idx. [''a'', ''b''] ! idx)\<rparr>"

text \<open>A client with an open socket, created at time 0, that has done nothing yet.\<close>

definition fresh_client :: client where
  "fresh_client =
     \<lparr>destroyed = False, lastActivity = 0, wsTimer = True, pollingTimer = False,
      socket = Some \<lparr>readyState = OPEN, handlers = True\<rparr>, clientId = ''c1'',
      listeners = [], dispatched = [], requests = []\<rparr>"

text \<open>
  A preview frame: event type 1, image type 2 (PNG), and four bytes of payload, in a
  buffer that has its \<^verbatim>\<open>ArrayBuffer\<close> to itself. And the same message in a buffer from
  the pool, eight bytes into an \<^verbatim>\<open>ArrayBuffer\<close> that begins with the bytes of something
  else.
\<close>

definition png_frame :: Buffer where
  "png_frame =
     \<lparr>arrayBuffer = [0, 0, 0, 1, 0, 0, 0, 2, 137, 80, 78, 71], byteOffset = 0, byteLength = 12\<rparr>"

definition pooled_png_frame :: Buffer where
  "pooled_png_frame =
     \<lparr>arrayBuffer = [130, 12, 0, 0, 0, 0, 0, 0, 0, 0, 0, 1, 0, 0, 0, 2, 137, 80, 78, 71],
      byteOffset = 8, byteLength = 12\<rparr>"


text \<open>
  A realm: the string-keyed members of the built-in prototypes as ECMAScript 2023 (with its
  annex B) lists them. Of the strings that convert to a number only the plain decimal ones
  are given a length here; an engine converts signed, fractional, exponential and
  hexadecimal literals as well, which no example below uses.
\<close>

definition es2023 :: realm where
  "es2023 =
     \<lparr>object_members =
        [''__proto__'', ''constructor'', ''hasOwnProperty'', ''isPrototypeOf'',
         ''propertyIsEnumerable'', ''toLocaleString'', ''toString'', ''valueOf'',
         ''__defineGetter__'', ''__defineSetter__'', ''__lookupGetter__'', ''__lookupSetter__''],
      array_members =
        [''at'', ''concat'', ''constructor'', ''copyWithin'', ''entries'', ''every'', ''fill'',
         ''filter'', ''find'', ''findIndex'', ''findLast'', ''findLastIndex'', ''flat'',
         ''flatMap'', ''forEach'', ''includes'', ''indexOf'', ''join'', ''keys'',
         ''lastIndexOf'', ''map'', ''pop'', ''push'', ''reduce'', ''reduceRight'', ''reverse'',
         ''shift'', ''slice'', ''some'', ''sort'', ''splice'', ''toLocaleString'',
         ''toReversed'', ''toSorted'', ''toSpliced'', ''toString'', ''unshift'', ''values'',
         ''with''],
      string_members =
        [''anchor'', ''at'', ''big'', ''blink'', ''bold'', ''charAt'', ''charCodeAt'',
         ''codePointAt'', ''concat'', ''constructor'', ''endsWith'', ''fixed'', ''fontcolor'',
         ''fontsize'', ''includes'', ''indexOf'', ''italics'', ''lastIndexOf'', ''link'',
         ''localeCompare'', ''match'', ''matchAll'', ''normalize'', ''padEnd'', ''padStart'',
         ''repeat'', ''replace'', ''replaceAll'', ''search'', ''slice'', ''small'', ''split'',
         ''startsWith'', ''strike'', ''sub'', ''substr'', ''substring'', ''sup'',
         ''toLocaleLowerCase'', ''toLocaleUpperCase'', ''toLowerCase'', ''toString'',
         ''toUpperCase'', ''trim'', ''trimEnd'', ''trimLeft'', ''trimRight'', ''trimStart'',
         ''valueOf''],
      number_members =
        [''constructor'', ''toExponential'', ''toFixed'', ''toLocaleString'', ''toPrecision'',
         ''toString'', ''valueOf''],
      boolean_members = [''constructor'', ''toString'', ''valueOf''],
      string_to_length = decimal\<rparr>"

text \<open>
  A heap that holds one workflow of the caller (object 0) with a sampler node 3, whose
  model input is a link to node 4, and a checkpoint node 4; and the heap after
  \<^verbatim>\<open>new PromptBuilder(workflow, ["seed"], ["out"])\<close>: the deep copy is object 1 and the
  builder is builder 0.
\<close>

definition base_workflow :: jsval where
  "base_workflow =
     JObj Standard
       [(''3'', JObj Standard
            [(''inputs'', JObj Standard
                [(''seed'', Prim (PNum 0)),
                 (''model'', JArr Standard 2 [(''0'', Prim (PStr ''4'')), (''1'', Prim (PNum 0))])])]),
        (''4'', JObj Standard
            [(''inputs'', JObj Standard [(''ckpt_name'', Prim (PStr ''sd.safetensors''))])])]"

definition caller_heap :: heap where
  "caller_heap = \<lparr>objects = [base_workflow], arrays = [], builders = [], escapes = []\<rparr>"

definition built_heap :: heap where
  "built_heap = fst (new_PromptBuilder es2023 0 [''seed''] [''out''] caller_heap)"

text \<open>The same after \<^verbatim>\<open>setInputNode("seed", "3.inputs.seed")\<close> on builder 0; the clone is builder 1.\<close>

definition bound_heap :: heap where
  "bound_heap = fst (setInputNode es2023 0 ''seed'' (Key ''3.inputs.seed'') built_heap)"

text \<open>
  The caller holds an array of paths (array 0) and binds it with
  \<^verbatim>\<open>setInputNode("seed", paths)\<close>; the clone, builder 1, holds the same array.
\<close>

definition array_heap :: heap where
  "array_heap =
     fst (setInputNode es2023 0 ''seed'' (Keys 0) (built_heap\<lparr>arrays := [[''3.inputs.seed'']]\<rparr>))"

section \<open>Properties of the job queue\<close>

lemma findIndex_None: "findIndex P xs = None \<longleftrightarrow> (\<forall>x \<in> set xs. \<not> P x)"
  by (induction xs) (auto split: option.splits)

lemma findIndex_Some:
  "findIndex P xs = Some i \<Longrightarrow>
     i = length (takeWhile (\<lambda>x. \<not> P x) xs) \<and> i < length xs \<and> P (xs ! i)"
  by (induction xs arbitrary: i) (auto split: option.splits if_splits)

lemma findIndex_SomeD: "findIndex P xs = Some i \<Longrightarrow> i < length xs \<and> P (xs ! i)"
  using findIndex_Some by blast

text \<open>Where \<^verbatim>\<open>pushJobByWeight\<close> puts the item: after every leading job that is not heavier.\<close>

lemma push_placement:
  "fst (pushJobByWeight item q) =
     takeWhile (\<lambda>j. weight j \<le> weight item) q @ item # dropWhile (\<lambda>j. weight j \<le> weight item) q"
proof (cases "findIndex (\<lambda>job. weight job > weight item) q")
  case None
  then have "\<forall>j \<in> set q. weight j \<le> weight item" by (auto simp: findIndex_None not_less)
  then have tw: "takeWhile (\<lambda>j. weight j \<le> weight item) q = q"
    and dw: "dropWhile (\<lambda>j. weight j \<le> weight item) q = []"
    by simp_all
  show ?thesis unfolding pushJobByWeight_def None tw dw by simp
next
  case (Some i)
  from findIndex_Some[OF this] have i: "i = length (takeWhile (\<lambda>x. \<not> weight item < weight x) q)" by simp
  have eq: "(\<lambda>x. \<not> weight item < weight x) = (\<lambda>j. weight j \<le> weight item)" by (auto simp: not_less)
  show ?thesis using Some i
    by (simp add: pushJobByWeight_def eq takeWhile_eq_take[symmetric] dropWhile_eq_drop[symmetric])
qed

lemma sorted_placement:
  "sorted (map weight q) \<Longrightarrow> weight item = w \<Longrightarrow>
   sorted (map weight (takeWhile (\<lambda>j. weight j \<le> w) q @ item # dropWhile (\<lambda>j. weight j \<le> w) q))"
proof (induction q)
  case Nil
  then show ?case by simp
next
  case (Cons a q)
  show ?case
  proof (cases "weight a \<le> w")
    case True
    have "\<forall>x \<in> set (takeWhile (\<lambda>j. weight j \<le> w) q). weight a \<le> weight x"
      using Cons.prems(1) by (auto dest: set_takeWhileD)
    moreover have "\<forall>x \<in> set (dropWhile (\<lambda>j. weight j \<le> w) q). weight a \<le> weight x"
      using Cons.prems(1) by (auto dest: set_dropWhileD)
    ultimately show ?thesis using Cons True by auto
  next
    case False
    then show ?thesis using Cons.prems by auto
  qed
qed

lemma sorted_push: "sorted (map weight q) \<Longrightarrow> sorted (map weight (fst (pushJobByWeight item q)))"
  using sorted_placement[of q item "weight item"] by (simp only: push_placement)

lemma no_equal_after:
  "sorted (map weight q) \<Longrightarrow> filter (\<lambda>j. weight j = w) (dropWhile (\<lambda>j. weight j \<le> w) q) = []"
proof (induction q)
  case Nil
  then show ?case by simp
next
  case (Cons a q)
  show ?case
  proof (cases "weight a \<le> w")
    case True
    then show ?thesis using Cons by simp
  next
    case False
    then have "\<forall>x \<in> set q. weight x \<noteq> w" using Cons.prems by fastforce
    then show ?thesis using False by (simp add: filter_empty_conv)
  qed
qed

lemma equal_weight_order:
  assumes "sorted (map weight q)"
  shows "filter (\<lambda>j. weight j = weight item) (fst (pushJobByWeight item q)) =
         filter (\<lambda>j. weight j = weight item) q @ [item]"
proof -
  let ?P = "\<lambda>j. weight j = weight item"
  let ?L = "\<lambda>j. weight j \<le> weight item"
  have "filter ?P q = filter ?P (takeWhile ?L q) @ filter ?P (dropWhile ?L q)"
    by (metis filter_append takeWhile_dropWhile_id)
  then have "filter ?P q = filter ?P (takeWhile ?L q)"
    using no_equal_after[OF assms, of "weight item"] by simp
  then show ?thesis
    using no_equal_after[OF assms, of "weight item"] by (simp add: push_placement)
qed

lemma claim_Inr:
  assumes "claim f w inc exc p = Inr (p', ev)"
  shows "length (jobQueue p) < maxQueueSize p"
    and "job_weight ev = (case w of None \<Rightarrow> real (length (jobQueue p)) | Some x \<Rightarrow> x)"
    and "jobQueue p' = fst (pushJobByWeight
            \<lparr>weight = job_weight ev, includeClientIds = inc, excludeClientIds = exc, fn = f\<rparr>
            (jobQueue p))"
  using assms by (auto simp: claim_def Let_def split_beta split: if_splits)

lemma sorted_claim:
  assumes "sorted (map weight (jobQueue p))" and "claim f w inc exc p = Inr (p', ev)"
  shows "sorted (map weight (jobQueue p'))"
  using sorted_push[OF assms(1)] claim_Inr(3)[OF assms(2)] by simp

lemma sorted_step:
  assumes s: "sorted (map weight (jobQueue p))"
  shows "sorted (map weight (jobQueue (queue_step p x)))"
proof (cases x)
  case (Enqueue f w inc exc)
  show ?thesis
  proof (cases "claim f w inc exc p")
    case (Inl e)
    then show ?thesis using s Enqueue by simp
  next
    case (Inr r)
    then show ?thesis
      using s Enqueue sorted_claim[of p f w inc exc "fst r" "snd r"] by (simp add: case_prod_beta)
  qed
next
  case Dequeue
  then show ?thesis using s by (cases "jobQueue p") (simp_all add: shift_def)
qed

lemma sorted_run:
  "sorted (map weight (jobQueue p)) \<Longrightarrow> sorted (map weight (jobQueue (queue_run p ops)))"
  unfolding queue_run_def by (induction ops arbitrary: p) (simp_all add: sorted_step)

text \<open>
  Claim C4. Starting from a new pool, after any sequence of enqueue (\<^verbatim>\<open>claim\<close>) and
  dequeue (\<^verbatim>\<open>shift\<close>) operations the job queue is non-decreasing in weight. A further
  accepted \<^verbatim>\<open>claim\<close> puts its item immediately before the first queued job of strictly
  greater weight, at the end when there is none, so the jobs of the same weight that were
  queued before it stay before it, in their order.
\<close>

theorem jobQueue_weight_order:
  "sorted (map weight (jobQueue (queue_run (new_pool m n) ops))) \<and>
   (claim f w inc exc (queue_run (new_pool m n) ops) = Inr (p', ev) \<longrightarrow>
      (let q = jobQueue (queue_run (new_pool m n) ops);
           item = \<lparr>weight = job_weight ev, includeClientIds = inc, excludeClientIds = exc, fn = f\<rparr>
       in jobQueue p' = takeWhile (\<lambda>j. weight j \<le> job_weight ev) q @ item #
                          dropWhile (\<lambda>j. weight j \<le> job_weight ev) q
          \<and> sorted (map weight (jobQueue p'))
          \<and> filter (\<lambda>j. weight j = job_weight ev) (jobQueue p') =
              filter (\<lambda>j. weight j = job_weight ev) q @ [item]))"
proof -
  let ?p = "queue_run (new_pool m n) ops"
  have s: "sorted (map weight (jobQueue ?p))"
    by (rule sorted_run) (simp add: new_pool_def)
  {
    assume c: "claim f w inc exc ?p = Inr (p', ev)"
    let ?item = "\<lparr>weight = job_weight ev, includeClientIds = inc, excludeClientIds = exc, fn = f\<rparr>"
    have q': "jobQueue p' = fst (pushJobByWeight ?item (jobQueue ?p))" by (rule claim_Inr(3)[OF c])
    have "jobQueue p' = takeWhile (\<lambda>j. weight j \<le> job_weight ev) (jobQueue ?p) @ ?item #
                          dropWhile (\<lambda>j. weight j \<le> job_weight ev) (jobQueue ?p)"
      using push_placement[of ?item "jobQueue ?p"] q' by simp
    moreover have "sorted (map weight (jobQueue p'))" by (rule sorted_claim[OF s c])
    moreover have "filter (\<lambda>j. weight j = job_weight ev) (jobQueue p') =
              filter (\<lambda>j. weight j = job_weight ev) (jobQueue ?p) @ [?item]"
      using equal_weight_order[OF s, of ?item] q' by simp
    ultimately have "let q = jobQueue ?p; item = ?item
       in jobQueue p' = takeWhile (\<lambda>j. weight j \<le> job_weight ev) q @ item #
                          dropWhile (\<lambda>j. weight j \<le> job_weight ev) q
          \<and> sorted (map weight (jobQueue p'))
          \<and> filter (\<lambda>j. weight j = job_weight ev) (jobQueue p') =
              filter (\<lambda>j. weight j = job_weight ev) q @ [item]"
      unfolding Let_def by blast
  }
  then show ?thesis using s by blast
qed

text \<open>
  The theorem at a concrete run: jobs \<open>a\<close> (weight 1) and \<open>b\<close> (weight 2) are queued, then
  \<open>c\<close> with weight 1 is claimed. It goes between them.
\<close>

theorem jobQueue_weight_order_witness:
  "claim ''c'' (Some 1) None None
      (queue_run (new_pool PICK_ZERO None)
         [Enqueue ''a'' (Some 1) None None, Enqueue ''b'' (Some 2) None None])
     = Inr (\<lparr>clientStates = [], mode = PICK_ZERO,
             jobQueue = [\<lparr>weight = 1, includeClientIds = None, excludeClientIds = None, fn = ''a''\<rparr>,
                         \<lparr>weight = 1, includeClientIds = None, excludeClientIds = None, fn = ''c''\<rparr>,
                         \<lparr>weight = 2, includeClientIds = None, excludeClientIds = None, fn = ''b''\<rparr>],
             routineIdx = Some 0, maxQueueSize = 1000\<rparr>,
            \<lparr>jobIdx = 1, job_weight = 1\<rparr>)
   \<and> sorted (map weight
        [\<lparr>weight = 1, includeClientIds = None, excludeClientIds = None, fn = ''a''\<rparr>,
         \<lparr>weight = 1, includeClientIds = None, excludeClientIds = None, fn = ''c''\<rparr>,
         \<lparr>weight = 2, includeClientIds = None, excludeClientIds = None, fn = ''b''\<rparr>])"
proof -
  let ?ops = "[Enqueue ''a'' (Some 1) None None, Enqueue ''b'' (Some 2) None None]"
  let ?p' = "\<lparr>clientStates = [], mode = PICK_ZERO,
             jobQueue = [\<lparr>weight = 1, includeClientIds = None, excludeClientIds = None, fn = ''a''\<rparr>,
                         \<lparr>weight = 1, includeClientIds = None, excludeClientIds = None, fn = ''c''\<rparr>,
                         \<lparr>weight = 2, includeClientIds = None, excludeClientIds = None, fn = ''b''\<rparr>],
             routineIdx = Some 0, maxQueueSize = 1000\<rparr>"
  have c: "claim ''c'' (Some 1) None None (queue_run (new_pool PICK_ZERO None) ?ops)
             = Inr (?p', \<lparr>jobIdx = 1, job_weight = 1\<rparr>)"
    by (simp add: queue_run_def new_pool_def claim_def pushJobByWeight_def)
  have "sorted (map weight (jobQueue ?p'))"
    using jobQueue_weight_order[of PICK_ZERO None ?ops "''c''" "Some 1" None None ?p'
            "\<lparr>jobIdx = 1, job_weight = 1\<rparr>"] c
    unfolding Let_def by blast
  then show ?thesis using c by simp
qed

section \<open>Properties of client selection\<close>

lemma findIndex_distinct:
  assumes d: "distinct (map f xs)" and x: "x \<in> set xs"
    and fi: "findIndex (\<lambda>c. f c = f x) xs = Some i"
  shows "xs ! i = x"
proof -
  from findIndex_SomeD[OF fi] have i: "i < length xs" "f (xs ! i) = f x" by auto
  have "inj_on f (set xs)" using d by (simp add: distinct_map)
  then show ?thesis using i x by (auto dest: inj_onD)
qed

text \<open>In \<^verbatim>\<open>PICK_ZERO\<close> mode, with pairwise distinct ids, one pass selects an unlocked client.\<close>

lemma selectClient_PICK_ZERO:
  assumes m: "mode p = PICK_ZERO"
    and d: "distinct (map cid (clientStates p))"
    and s: "selectClient p inc exc = (p', Some i)"
  shows "i < length (clientStates p) \<and> \<not> locked (clientStates p ! i) \<and> online (clientStates p ! i)
         \<and> queueRemaining (clientStates p ! i) = 0
         \<and> p' = modify i (\<lambda>c. c\<lparr>locked := True\<rparr>) p"
proof -
  let ?acc = "acceptedClients (clientStates p) inc exc"
  let ?P = "\<lambda>c. queueRemaining c = 0 \<and> \<not> locked c \<and> cid c \<noteq> []"
  have pi: "pickIndex p ?acc = (p, findIndex ?P ?acc)" using m by (simp add: pickIndex_def)
  from s pi obtain j where j: "findIndex ?P ?acc = Some j" "j < length ?acc"
    and t: "findIndex (\<lambda>c. cid c = cid (?acc ! j)) (clientStates p) = Some i"
    and p': "p' = modify i (\<lambda>c. c\<lparr>locked := True\<rparr>) p"
    by (auto simp: selectClient_def Let_def split: option.splits if_splits)
  from findIndex_SomeD[OF j(1)] have Pj: "?P (?acc ! j)" by simp
  have mem: "?acc ! j \<in> set ?acc" using j(2) by simp
  then have in_cs: "?acc ! j \<in> set (clientStates p)" and on: "online (?acc ! j)"
    by (auto simp: acceptedClients_def accepts_def split: if_splits)
  have eq: "clientStates p ! i = ?acc ! j" using findIndex_distinct[OF d in_cs t] .
  from findIndex_SomeD[OF t] have "i < length (clientStates p)" by simp
  then show ?thesis using eq Pj on p' by simp
qed

text \<open>No handler writes an id; a pass that selects nobody leaves the client states alone.\<close>

lemma map_update_same: "(map g xs)[i := g (xs ! i)] = map g xs"
proof (cases "i < length xs")
  case True
  then have "g (xs ! i) = map g xs ! i" by simp
  then show ?thesis by (simp only: list_update_id)
next
  case False
  then have "length (map g xs) \<le> i" by simp
  then show ?thesis by (rule list_update_beyond)
qed

lemma cids_modify:
  "(\<And>c. cid (f c) = cid c) \<Longrightarrow> map cid (clientStates (modify i f p)) = map cid (clientStates p)"
  by (simp add: modify_def map_update map_update_same)

lemma cids_handle_event: "map cid (clientStates (handle_event p e)) = map cid (clientStates p)"
  by (cases e) (simp_all add: cids_modify Let_def)

lemma cids_deliver: "map cid (clientStates (deliver p evs)) = map cid (clientStates p)"
  unfolding deliver_def by (induction evs arbitrary: p) (simp_all add: cids_handle_event)

lemma clientStates_pickIndex: "clientStates (fst (pickIndex p acc)) = clientStates p"
  by (simp add: pickIndex_def Let_def split: EQueueMode.splits option.splits)

lemma selectClient_None: "selectClient p inc exc = (p', None) \<Longrightarrow> clientStates p' = clientStates p"
  using clientStates_pickIndex[of p "acceptedClients (clientStates p) inc exc"]
  by (auto simp: selectClient_def Let_def split_beta split: option.splits if_splits)

text \<open>What the loop returns was selected by one pass of its body, on the state of that moment.\<close>

lemma getAvailableClient_selects:
  "getAvailableClient arrivals p inc exc = Some (p', i) \<Longrightarrow>
   \<exists>q. selectClient q inc exc = (p', Some i) \<and> map cid (clientStates q) = map cid (clientStates p)"
proof (induction arrivals arbitrary: p)
  case Nil
  then show ?case by (auto split: prod.splits option.splits)
next
  case (Cons evs arrivals)
  obtain p1 r where sel: "selectClient p inc exc = (p1, r)" by (cases "selectClient p inc exc")
  show ?case
  proof (cases r)
    case (Some j)
    then show ?thesis using Cons.prems sel by auto
  next
    case None
    then have "getAvailableClient arrivals (deliver p1 evs) inc exc = Some (p', i)"
      using Cons.prems sel by simp
    from Cons.IH[OF this] obtain q where q: "selectClient q inc exc = (p', Some i)"
      "map cid (clientStates q) = map cid (clientStates (deliver p1 evs))" by blast
    have "clientStates p1 = clientStates p" using sel None selectClient_None by blast
    then show ?thesis using q by (auto simp: cids_deliver)
  qed
qed

lemma getAvailableClient_pass:
  "getAvailableClient arrivals p inc exc = Some (p', i) \<Longrightarrow>
   selectClient (pass_state arrivals p inc exc) inc exc = (p', Some i) \<and>
   map cid (clientStates (pass_state arrivals p inc exc)) = map cid (clientStates p)"
proof (induction arrivals arbitrary: p)
  case Nil
  then show ?case by (auto split: prod.splits option.splits)
next
  case (Cons evs arrivals)
  obtain p1 r where sel: "selectClient p inc exc = (p1, r)" by (cases "selectClient p inc exc")
  show ?case
  proof (cases r)
    case (Some j)
    then show ?thesis using Cons.prems sel by auto
  next
    case None
    then have g: "getAvailableClient arrivals (deliver p1 evs) inc exc = Some (p', i)"
      using Cons.prems sel by simp
    have ps: "pass_state (evs # arrivals) p inc exc = pass_state arrivals (deliver p1 evs) inc exc"
      using sel None by simp
    have "clientStates p1 = clientStates p" using sel None selectClient_None by blast
    then show ?thesis using Cons.IH[OF g] unfolding ps by (simp add: cids_deliver)
  qed
qed

text \<open>
  Claim C2, as amended. When the ids of the clients are pairwise distinct and the mode is
  \<^verbatim>\<open>PICK_ZERO\<close>, a pass of the selection on a state \<open>p\<close> of the pool returns only a
  client that is online, has an empty queue and is not locked in \<open>p\<close>, and it changes
  nothing but the lock of that client. What \<^verbatim>\<open>getAvailableClient\<close> returns is what the
  pass on \<open>pass_state\<close>, the state of the pool when that pass starts, returns: so if the
  mode was \<^verbatim>\<open>PICK_ZERO\<close> then, the returned client was not locked then. In the modes
  \<^verbatim>\<open>PICK_LOWEST\<close> and \<^verbatim>\<open>PICK_ROUTINE\<close> the flag \<^verbatim>\<open>locked\<close> is not read (see the
  counterexample).
\<close>

theorem PICK_ZERO_never_selects_locked:
  assumes "distinct (map cid (clientStates p))"
  shows "(mode p = PICK_ZERO \<longrightarrow>
            (\<forall>p' i. selectClient p inc exc = (p', Some i) \<longrightarrow>
               i < length (clientStates p) \<and> \<not> locked (clientStates p ! i) \<and>
               online (clientStates p ! i) \<and> queueRemaining (clientStates p ! i) = 0 \<and>
               p' = modify i (\<lambda>c. c\<lparr>locked := True\<rparr>) p)) \<and>
         (\<forall>p' i. getAvailableClient arrivals p inc exc = Some (p', i) \<longrightarrow>
            selectClient (pass_state arrivals p inc exc) inc exc = (p', Some i) \<and>
            (mode (pass_state arrivals p inc exc) = PICK_ZERO \<longrightarrow>
               i < length (clientStates (pass_state arrivals p inc exc)) \<and>
               \<not> locked (clientStates (pass_state arrivals p inc exc) ! i) \<and>
               online (clientStates (pass_state arrivals p inc exc) ! i) \<and>
               queueRemaining (clientStates (pass_state arrivals p inc exc) ! i) = 0 \<and>
               p' = modify i (\<lambda>c. c\<lparr>locked := True\<rparr>) (pass_state arrivals p inc exc)))"
proof -
  have one: "mode p = PICK_ZERO \<longrightarrow>
            (\<forall>p' i. selectClient p inc exc = (p', Some i) \<longrightarrow>
               i < length (clientStates p) \<and> \<not> locked (clientStates p ! i) \<and>
               online (clientStates p ! i) \<and> queueRemaining (clientStates p ! i) = 0 \<and>
               p' = modify i (\<lambda>c. c\<lparr>locked := True\<rparr>) p)"
    using selectClient_PICK_ZERO[OF _ assms, of inc exc] by blast
  have loop: "selectClient (pass_state arrivals p inc exc) inc exc = (p', Some i) \<and>
            (mode (pass_state arrivals p inc exc) = PICK_ZERO \<longrightarrow>
               i < length (clientStates (pass_state arrivals p inc exc)) \<and>
               \<not> locked (clientStates (pass_state arrivals p inc exc) ! i) \<and>
               online (clientStates (pass_state arrivals p inc exc) ! i) \<and>
               queueRemaining (clientStates (pass_state arrivals p inc exc) ! i) = 0 \<and>
               p' = modify i (\<lambda>c. c\<lparr>locked := True\<rparr>) (pass_state arrivals p inc exc))"
    if g: "getAvailableClient arrivals p inc exc = Some (p', i)" for p' i
  proof -
    let ?q = "pass_state arrivals p inc exc"
    from getAvailableClient_pass[OF g] have q: "selectClient ?q inc exc = (p', Some i)"
      "map cid (clientStates ?q) = map cid (clientStates p)" by simp_all
    then have d: "distinct (map cid (clientStates ?q))" using assms by simp
    show ?thesis using selectClient_PICK_ZERO[OF _ d q(1)] q(1) by blast
  qed
  show ?thesis using one loop by blast
qed

text \<open>
  A pool in \<^verbatim>\<open>PICK_ZERO\<close> mode: client \<open>a\<close> is locked, client \<open>b\<close> is busy. The first pass
  selects nobody; then \<open>b\<close> reports an empty queue and is selected, by a pass on a state
  in which it is not locked. Client \<open>a\<close> is skipped.
\<close>

lemmas select_defs =
  selectClient_def acceptedClients_def accepts_def pickIndex_def indexOf_def modify_def
  deliver_def Let_def

theorem PICK_ZERO_never_selects_locked_witness:
  "distinct (map cid (clientStates zero_pool)) \<and>
   getAvailableClient [[Status 1 0]] zero_pool None None =
     Some (zero_pool\<lparr>clientStates :=
             [\<lparr>cid = ''a'', queueRemaining = 0, locked = True, online = True\<rparr>,
              \<lparr>cid = ''b'', queueRemaining = 0, locked = True, online = True\<rparr>]\<rparr>, 1) \<and>
   pass_state [[Status 1 0]] zero_pool None None =
     zero_pool\<lparr>clientStates :=
             [\<lparr>cid = ''a'', queueRemaining = 0, locked = True, online = True\<rparr>,
              \<lparr>cid = ''b'', queueRemaining = 0, locked = False, online = True\<rparr>]\<rparr> \<and>
   \<not> locked (clientStates (pass_state [[Status 1 0]] zero_pool None None) ! 1)"
proof -
  let ?p' = "zero_pool\<lparr>clientStates :=
             [\<lparr>cid = ''a'', queueRemaining = 0, locked = True, online = True\<rparr>,
              \<lparr>cid = ''b'', queueRemaining = 0, locked = True, online = True\<rparr>]\<rparr>"
  have d: "distinct (map cid (clientStates zero_pool))" by (simp add: zero_pool_def)
  have g: "getAvailableClient [[Status 1 0]] zero_pool None None = Some (?p', 1)"
    by (simp add: zero_pool_def select_defs)
  have q: "pass_state [[Status 1 0]] zero_pool None None =
     zero_pool\<lparr>clientStates :=
             [\<lparr>cid = ''a'', queueRemaining = 0, locked = True, online = True\<rparr>,
              \<lparr>cid = ''b'', queueRemaining = 0, locked = False, online = True\<rparr>]\<rparr>"
    by (simp add: zero_pool_def select_defs)
  have m: "mode (pass_state [[Status 1 0]] zero_pool None None) = PICK_ZERO"
    unfolding q by (simp add: zero_pool_def)
  from PICK_ZERO_never_selects_locked[OF d, of None None "[[Status 1 0]]"] g m
  have "\<not> locked (clientStates (pass_state [[Status 1 0]] zero_pool None None) ! 1)"
    by blast
  then show ?thesis using d g q by simp
qed

text \<open>
  The claim as stated fails in \<^verbatim>\<open>PICK_LOWEST\<close> mode: the only client is online and
  locked, and the selection returns it.
\<close>

theorem locked_client_selected_PICK_LOWEST:
  "locked (clientStates lowest_pool ! 0) \<and>
   getAvailableClient [] lowest_pool None None = Some (lowest_pool, 0)"
  by (simp add: lowest_pool_def select_defs)

text \<open>The same in \<^verbatim>\<open>PICK_ROUTINE\<close> mode.\<close>

lemma locked_client_selected_PICK_ROUTINE:
  "getAvailableClient [] (lowest_pool\<lparr>mode := PICK_ROUTINE\<rparr>) None None
     = Some (lowest_pool\<lparr>mode := PICK_ROUTINE\<rparr>, 0)"
  by (simp add: lowest_pool_def select_defs)

text \<open>
  Why the ids must be distinct: the picked state is found again by its id, and the first
  entry with that id is the one locked and returned. Here an offline, locked client
  shares the id of the online, free one; the locked one (index 0) is returned.
\<close>

lemma locked_client_selected_duplicate_id:
  "getAvailableClient []
     \<lparr>clientStates = [\<lparr>cid = ''a'', queueRemaining = 0, locked = True, online = False\<rparr>,
                      \<lparr>cid = ''a'', queueRemaining = 0, locked = False, online = True\<rparr>],
      mode = PICK_ZERO, jobQueue = ([] :: unit JobItem list), routineIdx = Some 0,
      maxQueueSize = 1000\<rparr> None None
   = Some (\<lparr>clientStates = [\<lparr>cid = ''a'', queueRemaining = 0, locked = True, online = False\<rparr>,
                      \<lparr>cid = ''a'', queueRemaining = 0, locked = False, online = True\<rparr>],
      mode = PICK_ZERO, jobQueue = [], routineIdx = Some 0, maxQueueSize = 1000\<rparr>, 0)"
  by (simp add: select_defs)

section \<open>Properties of run and its failover\<close>

declare tryExecute.simps [simp del]

lemma invocations_append: "invocations (xs @ ys) = invocations xs @ invocations ys"
  by (induction xs rule: invocations.induct) simp_all

lemma tryExecute_cases:
  assumes "tryExecute W C p ex a tr = (p', tr', r)"
  shows "tr' = tr \<or>
    (\<exists>p1 ev p2 job p3 idx.
      claim (a + 1) (ctx_weight C) (ctx_includeIds C) (Some ex) p = Inr (p1, ev) \<and>
      shift p1 = (p2, Some job) \<and>
      getAvailableClient (arriving W (a + 1)) p2 (includeClientIds job) (excludeClientIds job) = Some (p3, idx) \<and>
      ((job_ok W (a + 1) idx \<and> r = Resolved idx \<and>
         tr' = tr @ [Executing idx, Invoke (a + 1) idx (cid (clientStates p3 ! idx)) ex, Executed idx])
       \<or> (\<not> job_ok W (a + 1) idx \<and> r = Rejected \<and>
           \<not> (ctx_enableFailover C \<and> real (a + 1) < ctx_maxRetries C \<and> length (ctx_onlineClients C) > length ex) \<and>
           tr' = tr @ [Executing idx, Invoke (a + 1) idx (cid (clientStates p3 ! idx)) ex,
                       Run_execution_error idx False (a + 1) (ctx_maxRetries C)])
       \<or> (\<not> job_ok W (a + 1) idx \<and>
           ctx_enableFailover C \<and> real (a + 1) < ctx_maxRetries C \<and> length (ctx_onlineClients C) > length ex \<and>
           tryExecute W C (deliver p3 (during W (a + 1))) (ex @ [client_id W (a + 1) idx]) (a + 1)
             (tr @ [Executing idx, Invoke (a + 1) idx (cid (clientStates p3 ! idx)) ex,
                    Run_execution_error idx True (a + 1) (ctx_maxRetries C), Retry_timer (ctx_retryDelay C)])
            = (p', tr', r))))"
proof -
  note u = tryExecute.simps[of W C p ex a tr]
  show ?thesis
  proof (cases "claim (a + 1) (ctx_weight C) (ctx_includeIds C) (Some ex) p")
    case (Inl e)
    then show ?thesis using assms by (simp add: u Let_def)
  next
    case (Inr x)
    obtain p1 ev where x: "x = (p1, ev)" by (cases x)
    obtain p2 j where sh: "shift p1 = (p2, j)" by (cases "shift p1")
    show ?thesis
    proof (cases j)
      case None
      then show ?thesis using assms Inr x sh by (simp add: u Let_def)
    next
      case (Some job)
      show ?thesis
      proof (cases "getAvailableClient (arriving W (a + 1)) p2 (includeClientIds job) (excludeClientIds job)")
        case None
        then show ?thesis using assms Inr x sh Some by (simp add: u Let_def)
      next
        case (Some y)
        obtain p3 idx where y: "y = (p3, idx)" by (cases y)
        show ?thesis using assms Inr x sh \<open>j = Some job\<close> Some y
          by (simp add: u Let_def split: if_splits)
      qed
    qed
  qed
qed

lemma jobQueue_modify [simp]: "jobQueue (modify i f p) = jobQueue p"
  by (simp add: modify_def)

lemma jobQueue_handle_event [simp]: "jobQueue (handle_event p e) = jobQueue p"
  by (cases e) simp_all

lemma jobQueue_deliver [simp]: "jobQueue (deliver p evs) = jobQueue p"
  unfolding deliver_def by (induction evs arbitrary: p) simp_all

lemma jobQueue_pickIndex: "jobQueue (fst (pickIndex p acc)) = jobQueue p"
  by (simp add: pickIndex_def Let_def split: EQueueMode.splits option.splits)

lemma jobQueue_selectClient: "jobQueue (fst (selectClient p inc exc)) = jobQueue p"
  using jobQueue_pickIndex[of p "acceptedClients (clientStates p) inc exc"]
  by (simp add: selectClient_def Let_def split_beta split: option.splits)

lemma jobQueue_getAvailableClient:
  "getAvailableClient arrivals p inc exc = Some (p', i) \<Longrightarrow> jobQueue p' = jobQueue p"
proof (induction arrivals arbitrary: p)
  case Nil
  then show ?case using jobQueue_selectClient[of p inc exc]
    by (auto split: prod.splits option.splits)
next
  case (Cons evs arrivals)
  obtain p1 r where sel: "selectClient p inc exc = (p1, r)" by (cases "selectClient p inc exc")
  then have q1: "jobQueue p1 = jobQueue p" using jobQueue_selectClient[of p inc exc] by simp
  show ?case
  proof (cases r)
    case None
    then have "getAvailableClient arrivals (deliver p1 evs) inc exc = Some (p', i)"
      using Cons.prems sel by simp
    from Cons.IH[OF this] show ?thesis using q1 by simp
  next
    case (Some j)
    then show ?thesis using Cons.prems sel q1 by auto
  qed
qed

text \<open>The registered ids and the number of clients do not change while a job runs.\<close>

lemma clientStates_claim: "claim f w inc exc p = Inr (p', ev) \<Longrightarrow> clientStates p' = clientStates p"
  by (auto simp: claim_def Let_def split_beta split: if_splits)

lemma clientStates_shift: "shift p = (p', j) \<Longrightarrow> clientStates p' = clientStates p"
  by (auto simp: shift_def split: list.splits)

lemma selectClient_Some:
  assumes "selectClient q inc exc = (p', Some i)"
  shows "i < length (clientStates q) \<and> map cid (clientStates p') = map cid (clientStates q)"
proof -
  let ?acc = "acceptedClients (clientStates q) inc exc"
  obtain p1 index where pi: "pickIndex q ?acc = (p1, index)" by (cases "pickIndex q ?acc")
  have cs: "clientStates p1 = clientStates q" using clientStates_pickIndex[of q ?acc] pi by simp
  from assms pi obtain j where
    t: "findIndex (\<lambda>c. cid c = cid (?acc ! j)) (clientStates p1) = Some i"
    and p': "p' = modify i (\<lambda>c. c\<lparr>locked := True\<rparr>) p1"
    by (auto simp: selectClient_def Let_def split: option.splits if_splits)
  from findIndex_SomeD[OF t] have "i < length (clientStates q)" using cs by simp
  moreover have "map cid (clientStates p') = map cid (clientStates q)"
    unfolding p' using cids_modify[of "\<lambda>c. c\<lparr>locked := True\<rparr>" i p1] cs by simp
  ultimately show ?thesis by blast
qed

lemma getAvailableClient_index:
  assumes "getAvailableClient arrivals p inc exc = Some (p', i)"
  shows "i < length (clientStates p) \<and> map cid (clientStates p') = map cid (clientStates p)"
proof -
  from getAvailableClient_selects[OF assms] obtain q where
    q: "selectClient q inc exc = (p', Some i)" "map cid (clientStates q) = map cid (clientStates p)"
    by blast
  have "length (clientStates q) = length (clientStates p)"
    using q(2) by (metis length_map)
  then show ?thesis using selectClient_Some[OF q(1)] q(2) by simp
qed

lemma selectClient_cid:
  assumes "selectClient q inc exc = (p', Some i)"
  shows "\<exists>c \<in> set (acceptedClients (clientStates q) inc exc). cid (clientStates p' ! i) = cid c"
proof -
  let ?acc = "acceptedClients (clientStates q) inc exc"
  obtain p1 index where pi: "pickIndex q ?acc = (p1, index)" by (cases "pickIndex q ?acc")
  have cs: "clientStates p1 = clientStates q" using clientStates_pickIndex[of q ?acc] pi by simp
  from assms pi obtain j where j: "index = Some j" "j < length ?acc"
    and t: "findIndex (\<lambda>c. cid c = cid (?acc ! j)) (clientStates p1) = Some i"
    and p': "p' = modify i (\<lambda>c. c\<lparr>locked := True\<rparr>) p1"
    by (auto simp: selectClient_def Let_def split: option.splits if_splits)
  from findIndex_SomeD[OF t] have i: "i < length (clientStates p1)" "cid (clientStates p1 ! i) = cid (?acc ! j)"
    by auto
  have "cid (clientStates p' ! i) = cid (?acc ! j)" using i p' by (simp add: modify_def)
  moreover have "?acc ! j \<in> set ?acc" using j(2) by simp
  ultimately show ?thesis by blast
qed

lemma accepted_not_excluded:
  assumes "c \<in> set (acceptedClients cs inc (Some ex))" and "inc = None \<or> inc = Some []"
  shows "cid c \<notin> set ex"
  using assms by (cases ex) (auto simp: acceptedClients_def accepts_def split: if_splits)

lemma selected_not_excluded:
  assumes g: "getAvailableClient arrivals p inc (Some ex) = Some (p', i)"
    and inc: "inc = None \<or> inc = Some []"
  shows "cid (clientStates p' ! i) \<notin> set ex"
proof -
  from getAvailableClient_selects[OF g] obtain q where "selectClient q inc (Some ex) = (p', Some i)"
    by blast
  from selectClient_cid[OF this] obtain c where
    "c \<in> set (acceptedClients (clientStates q) inc (Some ex))" "cid (clientStates p' ! i) = cid c"
    by blast
  then show ?thesis using accepted_not_excluded[OF _ inc] by simp
qed

text \<open>With a non-empty include list the filter does not read the exclude list.\<close>

lemma acceptedClients_include:
  "acceptedClients cs (Some (i # ids)) exc = filter (\<lambda>c. online c \<and> cid c \<in> set (i # ids)) cs"
  unfolding acceptedClients_def accepts_def by (rule filter_cong) auto

lemma selectClient_include:
  "selectClient p (Some (i # ids)) exc = selectClient p (Some (i # ids)) None"
  unfolding selectClient_def acceptedClients_include ..

lemma getAvailableClient_include:
  "getAvailableClient arrivals p (Some (i # ids)) exc = getAvailableClient arrivals p (Some (i # ids)) None"
proof (induction arrivals arbitrary: p)
  case Nil
  show ?case using selectClient_include[of p i ids exc] by simp
next
  case (Cons evs arrivals)
  show ?case using selectClient_include[of p i ids exc] Cons.IH
    by (simp split: prod.splits option.splits)
qed

lemma claim_shift_empty:
  assumes c: "claim f w inc exc p = Inr (p1, ev)" and e: "jobQueue p = []"
    and s: "shift p1 = (p2, Some job)"
  shows "jobQueue p2 = [] \<and> includeClientIds job = inc \<and> excludeClientIds job = exc"
proof -
  have "jobQueue p1 = [\<lparr>weight = job_weight ev, includeClientIds = inc, excludeClientIds = exc, fn = f\<rparr>]"
    using claim_Inr(3)[OF c] e by (simp add: pushJobByWeight_def)
  then show ?thesis using s by (auto simp: shift_def)
qed

text \<open>What is known of the client an attempt runs on.\<close>

lemma attempt_client:
  assumes c: "claim f w inc (Some ex) p = Inr (p1, ev)" and e: "jobQueue p = []"
    and s: "shift p1 = (p2, Some job)"
    and g: "getAvailableClient arrivals p2 (includeClientIds job) (excludeClientIds job) = Some (p3, idx)"
    and ids: "map cid (clientStates p) = ids"
  shows "idx < length ids" and "cid (clientStates p3 ! idx) = ids ! idx"
    and "inc = None \<or> inc = Some [] \<Longrightarrow> cid (clientStates p3 ! idx) \<notin> set ex"
    and "jobQueue (deliver p3 evs) = []" and "map cid (clientStates (deliver p3 evs)) = ids"
proof -
  from claim_shift_empty[OF c e s] g
  have g': "getAvailableClient arrivals p2 inc (Some ex) = Some (p3, idx)"
    and q2: "jobQueue p2 = []" by simp_all
  have cs2: "clientStates p2 = clientStates p"
    using clientStates_claim[OF c] clientStates_shift[OF s] by simp
  from getAvailableClient_index[OF g'] cs2 ids
  have i: "idx < length (clientStates p)" and m: "map cid (clientStates p3) = ids" by simp_all
  show "idx < length ids" using i ids by auto
  have "idx < length (clientStates p3)" using i m ids by (metis length_map)
  then have "cid (clientStates p3 ! idx) = map cid (clientStates p3) ! idx" by simp
  then show "cid (clientStates p3 ! idx) = ids ! idx" using m by simp
  show "cid (clientStates p3 ! idx) \<notin> set ex" if "inc = None \<or> inc = Some []"
    using selected_not_excluded[OF g' that] .
  show "jobQueue (deliver p3 evs) = []" using jobQueue_getAvailableClient[OF g'] q2 by simp
  show "map cid (clientStates (deliver p3 evs)) = ids" using m by (simp add: cids_deliver)
qed

lemma trace_ok_single:
  assumes "idx < length ids" and "c = ids ! idx"
    and "ctx_includeIds C = None \<or> ctx_includeIds C = Some [] \<Longrightarrow> c \<notin> set ex"
    and "invocations new = [(Suc a, idx, c, ex)]"
  shows "trace_ok W C ids ex a new"
  using assms(1,2,3) unfolding trace_ok_def assms(4) by simp

lemma trace_ok_retry:
  assumes i: "idx < length ids" and c: "c = ids ! idx"
    and n: "ctx_includeIds C = None \<or> ctx_includeIds C = Some [] \<Longrightarrow> c \<notin> set ex"
    and lt: "real (Suc a) < ctx_maxRetries C" "length ex < length (ctx_onlineClients C)"
    and rest: "trace_ok W C ids (ex @ [client_id W (Suc a) idx]) (Suc a) new"
    and inv: "invocations new' = (Suc a, idx, c, ex) # invocations new"
  shows "trace_ok W C ids ex a new'"
proof -
  let ?n = "length (invocations new)"
  have r: "?n \<le> Suc (length (ctx_onlineClients C) - length (ex @ [client_id W (Suc a) idx]))"
    "int ?n \<le> max 1 (\<lceil>ctx_maxRetries C\<rceil> - int (Suc a))"
    "map fst (invocations new) = [Suc (Suc a) ..< Suc (Suc a) + ?n]"
    "list_all (\<lambda>(a', i, c, e). i < length ids \<and> c = ids ! i) (invocations new)"
    "accumulated (client_id W) (ex @ [client_id W (Suc a) idx]) (invocations new)"
    "(ctx_includeIds C = None \<or> ctx_includeIds C = Some []) \<longrightarrow>
        list_all (\<lambda>(a', i, c, e). c \<notin> set e) (invocations new)"
    using rest unfolding trace_ok_def by blast+
  have "int (Suc a) < \<lceil>ctx_maxRetries C\<rceil>" using lt(1) by (simp add: less_ceiling_iff)
  then have b2: "int (Suc ?n) \<le> max 1 (\<lceil>ctx_maxRetries C\<rceil> - int a)" using r(2) by simp
  have b1: "Suc ?n \<le> Suc (length (ctx_onlineClients C) - length ex)" using r(1) lt(2) by simp
  have b3: "map fst (invocations new') = [Suc a ..< Suc a + Suc ?n]"
  proof -
    have lt': "Suc a < Suc a + Suc ?n" by simp
    have e: "Suc a + Suc ?n = Suc (Suc a) + ?n" by simp
    have "[Suc a ..< Suc a + Suc ?n] = Suc a # [Suc (Suc a) ..< Suc (Suc a) + ?n]"
      using upt_conv_Cons[OF lt'] unfolding e .
    moreover have "map fst (invocations new') = Suc a # map fst (invocations new)"
      unfolding inv by simp
    ultimately show ?thesis using r(3) by (simp only: length_Cons inv)
  qed
  have l: "length (invocations new') = Suc ?n" unfolding inv by simp
  have c1: "length (invocations new') \<le> Suc (length (ctx_onlineClients C) - length ex)"
    unfolding l by (rule b1)
  have c2: "int (length (invocations new')) \<le> max 1 (\<lceil>ctx_maxRetries C\<rceil> - int a)"
    unfolding l by (rule b2)
  have c3: "map fst (invocations new') = [Suc a ..< Suc a + length (invocations new')]"
    unfolding l by (rule b3)
  have c4: "list_all (\<lambda>(a', i, c, e). i < length ids \<and> c = ids ! i) (invocations new')"
    unfolding inv using r(4) i c by simp
  have c5: "accumulated (client_id W) ex (invocations new')"
    unfolding inv using r(5) by simp
  have c6: "(ctx_includeIds C = None \<or> ctx_includeIds C = Some []) \<longrightarrow>
        list_all (\<lambda>(a', i, c, e). c \<notin> set e) (invocations new')"
    unfolding inv using r(6) n by auto
  show ?thesis unfolding trace_ok_def using c1 c2 c3 c4 c5 c6 by blast
qed

lemma tryExecute_trace:
  assumes "tryExecute W C p ex a tr = (p', tr', r)" and "jobQueue p = []"
    and "map cid (clientStates p) = ids"
  shows "\<exists>new. tr' = tr @ new \<and> trace_ok W C ids ex a new"
  using assms
proof (induction "length (ctx_onlineClients C) - length ex" arbitrary: p ex a tr rule: less_induct)
  case less
  from tryExecute_cases[OF less.prems(1)] show ?case
  proof (elim disjE exE conjE)
    assume "tr' = tr"
    then show ?thesis by (simp add: trace_ok_def)
  next
    fix p1 ev p2 job p3 idx
    assume c: "claim (a + 1) (ctx_weight C) (ctx_includeIds C) (Some ex) p = Inr (p1, ev)"
      and s: "shift p1 = (p2, Some job)"
      and g: "getAvailableClient (arriving W (a + 1)) p2 (includeClientIds job) (excludeClientIds job) = Some (p3, idx)"
      and tr': "tr' = tr @ [Executing idx, Invoke (a + 1) idx (cid (clientStates p3 ! idx)) ex, Executed idx]"
    note f = attempt_client[OF c less.prems(2) s g less.prems(3)]
    have "trace_ok W C ids ex a
            [Executing idx, Invoke (a + 1) idx (cid (clientStates p3 ! idx)) ex, Executed idx]"
      by (rule trace_ok_single[OF f(1) f(2) f(3)]) simp_all
    then show ?thesis using tr' by blast
  next
    fix p1 ev p2 job p3 idx
    assume c: "claim (a + 1) (ctx_weight C) (ctx_includeIds C) (Some ex) p = Inr (p1, ev)"
      and s: "shift p1 = (p2, Some job)"
      and g: "getAvailableClient (arriving W (a + 1)) p2 (includeClientIds job) (excludeClientIds job) = Some (p3, idx)"
      and tr': "tr' = tr @ [Executing idx, Invoke (a + 1) idx (cid (clientStates p3 ! idx)) ex,
                       Run_execution_error idx False (a + 1) (ctx_maxRetries C)]"
    note f = attempt_client[OF c less.prems(2) s g less.prems(3)]
    have "trace_ok W C ids ex a
            [Executing idx, Invoke (a + 1) idx (cid (clientStates p3 ! idx)) ex,
             Run_execution_error idx False (a + 1) (ctx_maxRetries C)]"
      by (rule trace_ok_single[OF f(1) f(2) f(3)]) simp_all
    then show ?thesis using tr' by blast
  next
    fix p1 ev p2 job idx and p3 :: "nat pool"
    let ?c = "cid (clientStates p3 ! idx)"
    let ?head = "[Executing idx, Invoke (a + 1) idx ?c ex,
                    Run_execution_error idx True (a + 1) (ctx_maxRetries C), Retry_timer (ctx_retryDelay C)]"
    assume c: "claim (a + 1) (ctx_weight C) (ctx_includeIds C) (Some ex) p = Inr (p1, ev)"
      and s: "shift p1 = (p2, Some job)"
      and g: "getAvailableClient (arriving W (a + 1)) p2 (includeClientIds job) (excludeClientIds job) = Some (p3, idx)"
      and lt: "real (a + 1) < ctx_maxRetries C" "length ex < length (ctx_onlineClients C)"
      and rec: "tryExecute W C (deliver p3 (during W (a + 1))) (ex @ [client_id W (a + 1) idx]) (a + 1)
                  (tr @ ?head) = (p', tr', r)"
    note f = attempt_client[OF c less.prems(2) s g less.prems(3)]
    have m: "length (ctx_onlineClients C) - length (ex @ [client_id W (a + 1) idx])
              < length (ctx_onlineClients C) - length ex" using lt(2) by simp
    from less.hyps[OF m rec f(4) f(5)] obtain new where
      new: "tr' = (tr @ ?head) @ new" "trace_ok W C ids (ex @ [client_id W (a + 1) idx]) (a + 1) new"
      by blast
    have "trace_ok W C ids ex a (?head @ new)"
      by (rule trace_ok_retry[OF f(1) f(2) f(3), where new = new])
         (use lt new(2) in \<open>simp_all add: invocations_append\<close>)
    then show ?thesis using new(1) by auto
  qed
qed

lemma run_trace:
  assumes "jobQueue p = []" and "run W p w flt opts = (p', tr, r)"
  shows "trace_ok W (run_setup p w flt opts) (map cid (clientStates p))
           (case excludeIds flt of None \<Rightarrow> [] | Some ids \<Rightarrow> ids) 0 tr"
  using tryExecute_trace[OF _ assms(1) refl, of W "run_setup p w flt opts" _ 0 "[]" p' tr r] assms(2)
  by (simp add: run_def)

text \<open>
  When every failed client is pushed on the exclude list under its registered id, and the
  registered id of the client of each call is not in the exclude list of that call, no
  client is called twice.
\<close>

lemma accumulated_distinct:
  assumes "accumulated live ex invs"
    and "list_all (\<lambda>(a, i, c, e). c \<notin> set e) invs"
    and "list_all (\<lambda>(a, i, c, e). i < length ids \<and> c = ids ! i \<and> live a i = ids ! i) invs"
  shows "distinct (used_clients invs) \<and> list_all (\<lambda>(a, i, c, e). ids ! i \<notin> set ex) invs"
  using assms
proof (induction invs arbitrary: ex)
  case Nil
  then show ?case by (simp add: used_clients_def)
next
  case (Cons x invs)
  obtain a i c e where x: "x = (a, i, c, e)" by (cases x)
  from Cons.prems x have h: "e = ex" "accumulated live (ex @ [ids ! i]) invs" "c \<notin> set ex"
    "c = ids ! i" by simp_all
  from Cons.prems have t: "list_all (\<lambda>(a, i, c, e). c \<notin> set e) invs"
    "list_all (\<lambda>(a, i, c, e). i < length ids \<and> c = ids ! i \<and> live a i = ids ! i) invs" by simp_all
  from Cons.IH[OF h(2) t] have ih: "distinct (used_clients invs)"
    "list_all (\<lambda>(a', j, c', e'). ids ! j \<notin> set (ex @ [ids ! i])) invs" by blast+
  have "i \<notin> set (used_clients invs)"
  proof
    assume "i \<in> set (used_clients invs)"
    then obtain a' c' e' where "(a', i, c', e') \<in> set invs" by (auto simp: used_clients_def)
    then have "ids ! i \<notin> set (ex @ [ids ! i])" using ih(2) by (auto simp: list_all_iff)
    then show False by simp
  qed
  moreover have "list_all (\<lambda>(a', j, c', e'). ids ! j \<notin> set ex) invs"
    using ih(2) by (auto simp: list_all_iff)
  ultimately show ?case using ih(1) h(3,4) x by (auto simp: used_clients_def list_all_iff)
qed

lemma ids_registered_live:
  assumes "ids_registered W p" and "i < length (clientStates p)"
  shows "client_id W a i = map cid (clientStates p) ! i"
  using assms by (auto simp: ids_registered_def list_all_iff)

text \<open>
  Claim C3, as amended. For a job scheduled by \<^verbatim>\<open>run\<close> on a pool with an empty queue:
  the job is called at most \<open>max(1, \<lceil>maxRetries\<rceil>)\<close> times, where \<open>maxRetries\<close> is the option
  or, when that is falsy, the number of clients online at the call of \<^verbatim>\<open>run\<close>, and at
  most once more than there were online clients beyond the length of the initial exclude
  list; the calls are numbered from 1; the exclude list of each call is the initial one
  extended by what \<^verbatim>\<open>client.id\<close> was for the client of each earlier call; when no include
  list is given, the registered id of the client of a call is not in the exclude list of
  that call; when moreover every \<^verbatim>\<open>client.id\<close> is still the registered id, no client is
  called twice. With a non-empty include list the exclude list is not read: the selection
  is the one made without an exclude list.
\<close>

theorem run_failover_attempts:
  assumes "jobQueue p = []" and "run W p w flt opts = (p', tr, r)"
  shows "int (length (invocations tr)) \<le>
           max 1 \<lceil>or_default (maxRetries opts) (real (length (filter online (clientStates p))))\<rceil>
         \<and> length (invocations tr) \<le>
             Suc (length (filter online (clientStates p)) -
                  length (case excludeIds flt of None \<Rightarrow> [] | Some ids \<Rightarrow> ids))
         \<and> map fst (invocations tr) = [1 ..< Suc (length (invocations tr))]
         \<and> accumulated (client_id W) (case excludeIds flt of None \<Rightarrow> [] | Some ids \<Rightarrow> ids)
             (invocations tr)
         \<and> ((includeIds flt = None \<or> includeIds flt = Some []) \<longrightarrow>
                list_all (\<lambda>(a, i, c, e). i < length (clientStates p) \<and>
                                          c = cid (clientStates p ! i) \<and> c \<notin> set e)
                  (invocations tr) \<and>
                (ids_registered W p \<longrightarrow> distinct (used_clients (invocations tr))))
         \<and> getAvailableClient arrivals q (Some (i # ids)) exc =
             getAvailableClient arrivals q (Some (i # ids)) None"
proof -
  let ?ex = "case excludeIds flt of None \<Rightarrow> [] | Some ids \<Rightarrow> ids"
  let ?ids = "map cid (clientStates p)"
  let ?invs = "invocations tr"
  from run_trace[OF assms] have t:
    "length ?invs \<le> Suc (length (filter online (clientStates p)) - length ?ex)"
    "int (length ?invs) \<le>
       max 1 \<lceil>or_default (maxRetries opts) (real (length (filter online (clientStates p))))\<rceil>"
    "map fst ?invs = [1 ..< Suc (length ?invs)]"
    "list_all (\<lambda>(a', i, c, e). i < length ?ids \<and> c = ?ids ! i) ?invs"
    "accumulated (client_id W) ?ex ?invs"
    "(includeIds flt = None \<or> includeIds flt = Some []) \<longrightarrow>
        list_all (\<lambda>(a', i, c, e). c \<notin> set e) ?invs"
    by (simp_all add: trace_ok_def run_setup_def Let_def)
  have named: "list_all (\<lambda>(a, i, c, e). i < length (clientStates p) \<and> c = cid (clientStates p ! i)) ?invs"
    using t(4) by (auto simp: list_all_iff)
  have c5: "list_all (\<lambda>(a, i, c, e). i < length (clientStates p) \<and>
                                          c = cid (clientStates p ! i) \<and> c \<notin> set e) ?invs \<and>
            (ids_registered W p \<longrightarrow> distinct (used_clients ?invs))"
    if inc: "includeIds flt = None \<or> includeIds flt = Some []"
  proof -
    have ne: "list_all (\<lambda>(a', i, c, e). c \<notin> set e) ?invs" using t(6) inc by blast
    have a: "list_all (\<lambda>(a, i, c, e). i < length (clientStates p) \<and>
                                          c = cid (clientStates p ! i) \<and> c \<notin> set e) ?invs"
      using named ne by (auto simp: list_all_iff)
    have d: "distinct (used_clients ?invs)" if reg: "ids_registered W p"
    proof -
      have "list_all (\<lambda>(a, i, c, e). i < length ?ids \<and> c = ?ids ! i \<and> client_id W a i = ?ids ! i) ?invs"
        using t(4) ids_registered_live[OF reg] by (auto simp: list_all_iff)
      from accumulated_distinct[OF t(5) ne this] show ?thesis by blast
    qed
    show ?thesis using a d by blast
  qed
  show ?thesis using t(1,2,3,5) c5 getAvailableClient_include[of arrivals q i ids exc] by blast
qed

text \<open>
  Scenario S2 of the specification: two clients, the job throws on the first and resolves
  on the second.
\<close>

lemmas run_defs =
  run_def run_setup_def or_default_def claim_def pushJobByWeight_def shift_def tryExecute.simps
  Let_def

theorem run_failover_attempts_witness:
  "jobQueue two_clients = [] \<and> ids_registered fails_on_first two_clients \<and>
   run fails_on_first two_clients None \<lparr>includeIds = None, excludeIds = None\<rparr>
       \<lparr>enableFailover = Some True, maxRetries = Some 2, retryDelay = Some 0\<rparr>
     = (two_clients\<lparr>clientStates :=
           [\<lparr>cid = ''a'', queueRemaining = 0, locked = False, online = True\<rparr>,
            \<lparr>cid = ''b'', queueRemaining = 0, locked = True, online = True\<rparr>]\<rparr>,
        [Executing 0, Invoke 1 0 ''a'' [], Run_execution_error 0 True 1 2, Retry_timer 1000,
         Executing 1, Invoke 2 1 ''b'' [''a''], Executed 1],
        Resolved 1) \<and>
   invocations
        [Executing 0, Invoke 1 0 ''a'' [], Run_execution_error 0 True 1 2, Retry_timer 1000,
         Executing 1, Invoke 2 1 ''b'' [''a''], Executed 1]
     = [(1, 0, ''a'', []), (2, 1, ''b'', [''a''])] \<and>
   distinct (used_clients [(1, 0, ''a'', []), (2, 1, ''b'', [''a''])])"
proof -
  let ?p' = "two_clients\<lparr>clientStates :=
           [\<lparr>cid = ''a'', queueRemaining = 0, locked = False, online = True\<rparr>,
            \<lparr>cid = ''b'', queueRemaining = 0, locked = True, online = True\<rparr>]\<rparr>"
  let ?tr = "[Executing 0, Invoke 1 0 ''a'' [], Run_execution_error 0 True 1 2, Retry_timer 1000,
         Executing 1, Invoke 2 1 ''b'' [''a''], Executed 1]"
  have q: "jobQueue two_clients = []" by (simp add: two_clients_def)
  have g: "ids_registered fails_on_first two_clients"
    by (simp add: ids_registered_def two_clients_def fails_on_first_def upt_rec)
  have r: "run fails_on_first two_clients None \<lparr>includeIds = None, excludeIds = None\<rparr>
       \<lparr>enableFailover = Some True, maxRetries = Some 2, retryDelay = Some 0\<rparr>
     = (?p', ?tr, Resolved 1)"
    by (simp add: run_defs select_defs two_clients_def fails_on_first_def)
  have i: "invocations ?tr = [(1, 0, ''a'', []), (2, 1, ''b'', [''a''])]" by simp
  have n: "includeIds \<lparr>includeIds = None, excludeIds = None\<rparr> = None" by simp
  from run_failover_attempts[OF q r, where arrivals = "[]" and q = two_clients and i = "''a''"
        and ids = "[]" and exc = None] n g
  have "distinct (used_clients (invocations ?tr))" by blast
  then show ?thesis using q g r i by simp
qed

text \<open>
  The claim as stated fails when an include list is given: the only client \<open>a\<close> is
  included, the job throws on it, its id is pushed on the exclude list, and the second
  attempt runs on \<open>a\<close> again. The job is called twice, with one online client and
  \<^verbatim>\<open>maxRetries\<close> 5, and the second call is on a client in the exclude list.
\<close>

theorem run_retries_excluded_client:
  "invocations (fst (snd (run always_fails one_client None
       \<lparr>includeIds = Some [''a''], excludeIds = None\<rparr>
       \<lparr>enableFailover = None, maxRetries = Some 5, retryDelay = None\<rparr>)))
     = [(1, 0, ''a'', []), (2, 0, ''a'', [''a''])] \<and>
   min (5 :: int) (int (length (filter online (clientStates one_client)))) = 1"
  by (simp add: run_defs select_defs one_client_def always_fails_def)

text \<open>
  The bound \<open>min(maxRetries, |onlineClients|)\<close> is also exceeded without an include list,
  when a client comes online after \<^verbatim>\<open>run\<close> was called: one client was online, the job is
  called twice.
\<close>

lemma run_exceeds_online_count:
  "invocations (fst (snd (run b_comes_online late_client None
       \<lparr>includeIds = None, excludeIds = None\<rparr>
       \<lparr>enableFailover = None, maxRetries = Some 5, retryDelay = None\<rparr>)))
     = [(1, 0, ''a'', []), (2, 1, ''b'', [''a''])] \<and>
   min (5 :: int) (int (length (filter online (clientStates late_client)))) = 1"
  by (simp add: run_defs select_defs late_client_def b_comes_online_def)

text \<open>
  A number of retries that is not whole: with \<^verbatim>\<open>maxRetries\<close> 1.5 and two clients the job
  is called twice, which is \<open>\<lceil>1.5\<rceil>\<close>.
\<close>

lemma run_fractional_maxRetries:
  "invocations (fst (snd (run (always_fails\<lparr>during := (\<lambda>attempt. [])\<rparr>) two_clients None
       \<lparr>includeIds = None, excludeIds = None\<rparr>
       \<lparr>enableFailover = None, maxRetries = Some (3 / 2), retryDelay = None\<rparr>)))
     = [(1, 0, ''a'', []), (2, 1, ''b'', [''a''])]"
  by (simp add: run_defs select_defs two_clients_def always_fails_def)

text \<open>
  Why the ids must be the registered ones: the server has sent client \<open>a\<close> a \<^verbatim>\<open>sid\<close>, so
  its \<^verbatim>\<open>client.id\<close> is now \<open>s\<close>. The job throws on it, \<open>s\<close> is pushed on the exclude
  list, the filter compares the list with the registered id \<open>a\<close>, and the second attempt
  runs on the same client.
\<close>

lemma run_retries_client_with_new_sid:
  "invocations (fst (snd (run (always_fails\<lparr>client_id := (\<lambda>attempt idx. ''s'')\<rparr>) one_client None
       \<lparr>includeIds = None, excludeIds = None\<rparr>
       \<lparr>enableFailover = None, maxRetries = Some 5, retryDelay = None\<rparr>)))
     = [(1, 0, ''a'', []), (2, 0, ''a'', [''s''])]"
  by (simp add: run_defs select_defs one_client_def always_fails_def)

text \<open>
  Claim C10. An option given as 0 is read as a missing option: \<^verbatim>\<open>retryDelay\<close> 0 gives
  the delay 1000, \<^verbatim>\<open>maxRetries\<close> 0 gives the number of clients online at the call, and
  the whole run is the same as without the option.
\<close>

theorem zero_option_is_default:
  "run W p w flt (opts\<lparr>retryDelay := Some 0\<rparr>) = run W p w flt (opts\<lparr>retryDelay := None\<rparr>) \<and>
   ctx_retryDelay (run_setup p w flt (opts\<lparr>retryDelay := Some 0\<rparr>)) = 1000 \<and>
   run W p w flt (opts\<lparr>maxRetries := Some 0\<rparr>) = run W p w flt (opts\<lparr>maxRetries := None\<rparr>) \<and>
   ctx_maxRetries (run_setup p w flt (opts\<lparr>maxRetries := Some 0\<rparr>)) =
     real (length (filter online (clientStates p)))"
  by (simp add: run_def run_setup_def or_default_def Let_def)

section \<open>Properties of the backend client\<close>

subsection \<open>Preview frames\<close>

text \<open>
  Every binary message that the code decodes is a preview with MIME type
  \<^verbatim>\<open>image/jpeg\<close>: the image type is read from the word that holds the event type, which
  is 1 on this branch. The payload is what follows the first eight bytes.
\<close>

lemma decode_binary_preview:
  "decode_binary buffer = Inr ev \<longleftrightarrow>
     (getUint32 (arrayBuffer buffer) 0 = Some 1 \<and>
      ev = Ev_b_preview ''image/jpeg'' (drop 8 (contents buffer)))"
  by (auto simp: decode_binary_def Let_def split: option.splits if_splits)

lemma decode_binary_never_png: "decode_binary buffer \<noteq> Inr (Ev_b_preview ''image/png'' payload)"
  by (simp add: decode_binary_preview)

text \<open>
  Claim C6 at a frame that announces a PNG image (second word 2): the code emits
  \<^verbatim>\<open>image/jpeg\<close>, the decoder of the specification \<^verbatim>\<open>image/png\<close>. The payload is the
  bytes from offset 8 in both.
\<close>

theorem png_preview_decoded_as_jpeg:
  "decode_binary png_frame = Inr (Ev_b_preview ''image/jpeg'' [137, 80, 78, 71]) \<and>
   spec_decode_binary png_frame = Inr (Ev_b_preview ''image/png'' [137, 80, 78, 71])"
  by (simp add: decode_binary_def spec_decode_binary_def getUint32_def png_frame_def contents_def)

text \<open>
  The same message in a buffer from the pool: the two words are read from the start of the
  \<^verbatim>\<open>ArrayBuffer\<close>, where another message lies; the event type found there is unknown and
  the frame is logged and dropped.
\<close>

lemma pooled_preview_dropped:
  "decode_binary pooled_png_frame = Inl (Unknown_binary_message 2181824512) \<and>
   spec_decode_binary pooled_png_frame = Inr (Ev_b_preview ''image/png'' [137, 80, 78, 71])"
  by (simp add: decode_binary_def spec_decode_binary_def getUint32_def pooled_png_frame_def
        contents_def)

subsection \<open>Reconnection delays\<close>





declare tryReconnect.simps [simp del]





lemma reconnect_never_up_ten_attempts:
  "attempts (reconnectWs random (\<lambda>k. False)) = 10 \<and>
   last (reconnectWs random (\<lambda>k. False)) = Reconnection_failed"
  by (simp add: reconnectWs_def tryReconnect.simps MAX_ATTEMPTS_def Let_def)

subsection \<open>destroy and the activity time\<close>

lemmas client_defs =
  destroy_def on_def fetchApi_def onmessage_def onopen_def createSocket_def pollFn_request_def
  pollFn_settled_def removeAllListeners_def log_event_def dispatchEvent_def resetLastActivity_def
  Let_def






lemma lastActivity_step:
  "lastActivity (client_step c x) = lastActivity c \<or> op_time x = Some (lastActivity (client_step c x))"
  by (cases x) (simp_all add: client_defs split: option.splits sum.splits frame.splits)

lemma clock_ok_mono: "clock_ok t ops \<Longrightarrow> t' \<le> t \<Longrightarrow> clock_ok t' ops"
  by (induction ops arbitrary: t t') (auto split: option.splits)

lemma clock_ok_step:
  assumes "lastActivity c \<le> t" and "clock_ok t (x # xs)"
  shows "\<exists>t'. lastActivity c \<le> lastActivity (client_step c x) \<and> lastActivity (client_step c x) \<le> t' \<and> clock_ok t' xs"
proof (cases "op_time x")
  case None
  then have "lastActivity (client_step c x) = lastActivity c" using lastActivity_step[of c x] by simp
  then show ?thesis using assms None by auto
next
  case (Some now)
  then have t: "t \<le> now" "clock_ok now xs" using assms(2) by simp_all
  from lastActivity_step[of c x] Some
  have "lastActivity (client_step c x) = lastActivity c \<or> lastActivity (client_step c x) = now" by auto
  then show ?thesis using t assms(1) by (auto intro: exI[of _ now])
qed

lemma lastActivity_run:
  "lastActivity c \<le> t \<Longrightarrow> clock_ok t (xs @ ys) \<Longrightarrow>
   \<exists>t'. lastActivity c \<le> lastActivity (client_run c xs) \<and> lastActivity (client_run c xs) \<le> t' \<and> clock_ok t' ys"
proof (induction xs arbitrary: c t)
  case Nil
  then show ?case by (auto simp: client_run_def)
next
  case (Cons x xs)
  from clock_ok_step[OF Cons.prems(1), of x "xs @ ys"] Cons.prems(2) obtain t1 where
    t1: "lastActivity c \<le> lastActivity (client_step c x)" "lastActivity (client_step c x) \<le> t1"
        "clock_ok t1 (xs @ ys)" by auto
  from Cons.IH[OF t1(2) t1(3)] obtain t' where
    "lastActivity (client_step c x) \<le> lastActivity (client_run (client_step c x) xs)"
    "lastActivity (client_run (client_step c x) xs) \<le> t'" "clock_ok t' ys" by blast
  then show ?case using t1(1) by (auto simp: client_run_def)
qed

lemma lastActivity_monotone:
  assumes "clock_ok (lastActivity c) (xs @ ys)"
  shows "lastActivity (client_run c xs) \<le> lastActivity (client_run c (xs @ ys))"
proof -
  from lastActivity_run[OF order_refl assms] obtain t where
    t: "lastActivity (client_run c xs) \<le> t" "clock_ok t ys" by blast
  from lastActivity_run[OF t(1), of ys "[]"] t(2)
  have "lastActivity (client_run c xs) \<le> lastActivity (client_run (client_run c xs) ys)" by auto
  then show ?thesis by (simp add: client_run_def)
qed






text \<open>
  Claim C9, as amended. When the clock does not go back, the activity time never
  decreases along a sequence of steps. It is refreshed by every message and by the open
  event of the socket, and by every successful poll of the polling fallback. A response
  to an HTTP accessor does not refresh it, nor does the call.
\<close>

theorem lastActivity_refreshed_and_monotone:
  assumes "clock_ok (lastActivity c) (xs @ ys)"
  shows "lastActivity (client_run c xs) \<le> lastActivity (client_run c (xs @ ys)) \<and>
         (\<forall>s. socket c = Some s \<and> handlers s \<longrightarrow>
              lastActivity (client_step c (Op_message now fr)) = now \<and>
              lastActivity (client_step c (Op_open now isReconnect)) = now) \<and>
         lastActivity (client_step c (Op_poll_settled now True created)) = now \<and>
         lastActivity (client_step c (Op_response now route status)) = lastActivity c \<and>
         lastActivity (client_step c (Op_fetchApi route)) = lastActivity c"
proof -
  have "\<forall>s. socket c = Some s \<and> handlers s \<longrightarrow>
              lastActivity (client_step c (Op_message now fr)) = now \<and>
              lastActivity (client_step c (Op_open now isReconnect)) = now"
    by (simp add: client_defs split: option.splits sum.splits frame.splits)
  moreover have "lastActivity (client_step c (Op_poll_settled now True created)) = now"
    by (simp add: client_defs split: option.splits)
  moreover have "lastActivity (client_step c (Op_response now route status)) = lastActivity c"
    "lastActivity (client_step c (Op_fetchApi route)) = lastActivity c"
    by (simp_all add: client_defs)
  ultimately show ?thesis using lastActivity_monotone[OF assms] by blast
qed

theorem lastActivity_refreshed_and_monotone_witness:
  "clock_ok (lastActivity fresh_client)
      ([Op_message 100 (Binary png_frame), Op_fetchApi ''/queue''] @
       [Op_response 200 ''/queue'' 200, Op_message 300 Other_data]) \<and>
   lastActivity (client_run fresh_client [Op_message 100 (Binary png_frame), Op_fetchApi ''/queue'']) = 100 \<and>
   lastActivity (client_run fresh_client
      ([Op_message 100 (Binary png_frame), Op_fetchApi ''/queue''] @
       [Op_response 200 ''/queue'' 200, Op_message 300 Other_data])) = 300 \<and>
   lastActivity (client_step fresh_client (Op_message 100 (Binary png_frame))) = 100"
proof -
  let ?xs = "[Op_message 100 (Binary png_frame), Op_fetchApi ''/queue'']"
  let ?ys = "[Op_response 200 ''/queue'' 200, Op_message 300 Other_data]"
  have c: "clock_ok (lastActivity fresh_client) (?xs @ ?ys)" by (simp add: fresh_client_def)
  have a: "lastActivity (client_run fresh_client ?xs) = 100"
    by (simp add: client_run_def client_defs fresh_client_def split: sum.splits)
  have b: "lastActivity (client_run fresh_client (?xs @ ?ys)) = 300"
    by (simp add: client_run_def client_defs fresh_client_def split: sum.splits)
  have s: "socket fresh_client = Some \<lparr>readyState = OPEN, handlers = True\<rparr>"
    by (simp add: fresh_client_def)
  from lastActivity_refreshed_and_monotone[OF c, of 100 "Binary png_frame"] s
  have "lastActivity (client_step fresh_client (Op_message 100 (Binary png_frame))) = 100"
    by simp
  then show ?thesis using a b c by simp
qed

text \<open>
  The claim as stated fails: a successful response to \<^verbatim>\<open>getQueue\<close> arrives at time 5000
  and the activity time is still 0.
\<close>

theorem http_response_does_not_refresh:
  "lastActivity (client_run fresh_client [Op_fetchApi ''/queue'', Op_response 5000 ''/queue'' 200]) = 0"
  by (simp add: client_run_def client_defs fresh_client_def)

section \<open>Properties of the prompt template\<close>

subsection \<open>What each operation does to the heap\<close>

lemma prompt_assign_input [simp]: "prompt (assign_input R name bnd b) = prompt b"
  by (simp add: assign_input_def split: binding.splits)

lemma prompt_assign_output [simp]: "prompt (assign_output R name v b) = prompt b"
  by (simp add: assign_output_def)

lemma prompt_register_names [simp]: "prompt (register_names R ins outs b) = prompt b"
proof -
  have 1: "prompt (foldl (\<lambda>b key. assign_input R key Unbound b) b ins) = prompt b" for b
    by (induction ins arbitrary: b) simp_all
  have 2: "prompt (foldl (\<lambda>b key. assign_output R key None b) b outs) = prompt b" for b
    by (induction outs arbitrary: b) simp_all
  show ?thesis by (simp add: register_names_def 1 2)
qed







text \<open>Appending objects and builders does not change what is seen of an existing builder.\<close>

lemma deref_extend [simp]: "deref (h\<lparr>objects := os, builders := bs\<rparr>) bnd = deref h bnd"
  by (cases bnd) simp_all













text \<open>
  \<^verbatim>\<open>appendRawInputNode\<close> on a name that is bound to a string, to an array, or registered
  without a binding.
\<close>

lemma not_index_proto [simp]: "array_index ''__proto__'' = None"
  by (simp add: array_index_def canonical_index_def decimal_def digit_def)






subsection \<open>The objects of the caller\<close>


lemma walk_keys_frame:
  "walk_keys R this keys h = (h', r) \<Longrightarrow>
   builders h' = builders h \<and> arrays h' = arrays h \<and> length (objects h') = length (objects h) \<and>
   (\<forall>w. w \<noteq> prompt (builders h ! this) \<longrightarrow> objects h' ! w = objects h ! w)"
  by (auto simp: walk_keys_def store_prompt_def Let_def split: prod.splits result.splits)













subsection \<open>The reserved names in inputRaw\<close>









subsection \<open>More on the setters and on input\<close>

lemma deref_builders [simp]: "deref (h\<lparr>builders := bs\<rparr>) bnd = deref h bnd"
  by (cases bnd) simp_all





lemmas builder_defs =
  new_PromptBuilder_def register_names_def assign_input_def assign_output_def is_proto_setter_def
  clone_def bypass_def reinstate_def setRawInputNode_def setInputNode_def appendRawInputNode_def
  appendInputNode_def setRawOutputNode_def setOutputNode_def read_input_def input_def
  inputRaw_def set_builder_def store_prompt_def write_keys_def walk_keys_def encode_value_def
  set_path_def set_path_raw_def assign_def descend_def js_get_def js_set_def array_index_def
  canonical_index_def decimal_def digit_def view_of_def copy_of_def splice_out_def indexOf_def
  kept_def caller_object_def Let_def

lemmas fixture_defs =
  es2023_def base_workflow_def caller_heap_def built_heap_def bound_heap_def array_heap_def


subsection \<open>The example heaps\<close>

lemma built_heap_eq:
  "built_heap =
     \<lparr>objects = [base_workflow, base_workflow], arrays = [],
      builders = [\<lparr>prompt = 1, mapInputKeys = [(''seed'', Unbound)], inputProto = None,
                   mapOutputKeys = [(''out'', None)], bypassNodes = []\<rparr>],
      escapes = []\<rparr>"
  by (simp add: builder_defs fixture_defs)


lemma array_heap_eq:
  "array_heap =
     \<lparr>objects = [base_workflow, base_workflow, base_workflow], arrays = [[''3.inputs.seed'']],
      builders = [\<lparr>prompt = 1, mapInputKeys = [(''seed'', Paths 0)],
                   inputProto = None, mapOutputKeys = [(''out'', None)], bypassNodes = []\<rparr>,
                  \<lparr>prompt = 2, mapInputKeys = [(''seed'', Paths 0)],
                   inputProto = None, mapOutputKeys = [(''out'', None)], bypassNodes = []\<rparr>],
      escapes = []\<rparr>"
  unfolding array_heap_def built_heap_eq by (simp add: builder_defs base_workflow_def es2023_def)

subsection \<open>Claim C1: reserved names in paths\<close>




subsection \<open>Claim C5: what the operations of a template change\<close>




text \<open>
  An array of paths is shared: \<^verbatim>\<open>appendInputNode\<close> on the clone (builder 1) pushes on the
  array that the caller passed to \<^verbatim>\<open>setInputNode\<close> and that builder 0 holds as well.
\<close>

lemma append_changes_the_clone:
  "map_of (inputMap (view_of array_heap 0)) ''seed'' = Some (Many_paths [''3.inputs.seed'']) \<and>
   map_of (inputMap (view_of (fst (appendInputNode es2023 1 ''seed'' (Key ''4.inputs.seed'') array_heap)) 0))
     ''seed'' = Some (Many_paths [''3.inputs.seed'', ''4.inputs.seed'']) \<and>
   arrays (fst (appendInputNode es2023 1 ''seed'' (Key ''4.inputs.seed'') array_heap)) ! 0 =
     [''3.inputs.seed'', ''4.inputs.seed'']"
  unfolding array_heap_eq by (simp add: builder_defs base_workflow_def es2023_def)

text \<open>
  Names and keys that are members of a built-in prototype: the name \<^verbatim>\<open>toString\<close> reads a
  function, which \<^verbatim>\<open>input\<close> cannot iterate and \<^verbatim>\<open>appendInputNode\<close> cannot push on; a
  path through \<^verbatim>\<open>push\<close> of an array leaves the workflow; a path through \<^verbatim>\<open>length\<close> of
  an array meets a number.
\<close>

lemma inherited_names:
  "input es2023 0 ''toString'' (PNum 1) None built_heap = (built_heap, Throws TypeError) \<and>
   appendInputNode es2023 0 ''toString'' (Key ''3.inputs.seed'') built_heap =
     (built_heap, Throws TypeError) \<and>
   input es2023 0 ''steps'' (PNum 1) None built_heap = (built_heap, Throws (Key_not_found ''steps'')) \<and>
   snd (inputRaw es2023 0 ''3.inputs.model.push.x'' (PNum 1) None built_heap) = Escapes \<and>
   snd (inputRaw es2023 0 ''3.inputs.model.length.x'' (PNum 1) None built_heap) = Throws TypeError"
  unfolding built_heap_eq by (simp add: builder_defs base_workflow_def es2023_def)

text \<open>
  The array given for the name \<^verbatim>\<open>__proto__\<close> becomes the prototype of the input map of the
  receiver, and the clone that is returned does not have it.
\<close>

lemma proto_name_sets_prototype:
  "inputInherited (view_of (fst (setInputNode es2023 0 ''__proto__'' (Keys 0)
      (built_heap\<lparr>arrays := [[''3.inputs.seed'']]\<rparr>))) 0) = Some [''3.inputs.seed''] \<and>
   inputInherited (view_of (fst (setInputNode es2023 0 ''__proto__'' (Keys 0)
      (built_heap\<lparr>arrays := [[''3.inputs.seed'']]\<rparr>))) 1) = None \<and>
   inputMap (view_of (fst (setInputNode es2023 0 ''__proto__'' (Keys 0)
      (built_heap\<lparr>arrays := [[''3.inputs.seed'']]\<rparr>))) 0) = [(''seed'', No_path)] \<and>
   view_of (fst (setInputNode es2023 0 ''__proto__'' (Key ''3.inputs.seed'') built_heap)) 0 =
     view_of built_heap 0"
  unfolding built_heap_eq by (simp add: builder_defs base_workflow_def es2023_def)

lemma input_encodes_NT_path:
  "at_path (workflow (view_of (fst (inputRaw es2023 0 ''4.inputs.ckpt_name'' (PStr ''sd/xl.safetensors'')
      (Some NT) built_heap)) 0)) [''4'', ''inputs'', ''ckpt_name''] =
   Prim (PStr [CHR ''s'', CHR ''d'', CHR 0x5C, CHR ''x'', CHR ''l'', CHR ''.'', CHR ''s'', CHR ''a'',
               CHR ''f'', CHR ''e'', CHR ''t'', CHR ''e'', CHR ''n'', CHR ''s'', CHR ''o'', CHR ''r'',
               CHR ''s''])"
  unfolding built_heap_eq
  by (simp add: builder_defs base_workflow_def es2023_def encodeNTPath_def)


end
